theory Spec2Isabelle
  imports Complex_Main
begin

section \<open>Data model (src/models)\<close>

text \<open>
  A MongoDB ObjectId is a natural number, a JavaScript \<open>Date\<close> is its time value
  (milliseconds since the epoch, an integer), and a JavaScript \<open>Number\<close> holding an
  amount is an exact rational. A collection is the list of its documents in insertion order;
  \<open>find\<close> is \<open>filter\<close>, \<open>findOne\<close> is \<open>find\<close>, and saving a document replaces the
  document with the same identifier. Rounding of floating-point numbers and failures of the
  storage layer are outside the model.
\<close>

type_synonym oid = nat
type_synonym date = int
type_synonym num = rat

datatype status = Unpaid | Partially_paid | Paid | Overdue

datatype lease_status = Upcoming | Active | Ended | Cancelled

datatype room_status = Vacant | Occupied | Partially_occupied | Maintenance

datatype fee_type = Per_day | Percentage

datatype mode = Cash | Upi | Bank_transfer | Card

record room =
  r_id :: oid
  r_status :: room_status
  currentLease :: "oid option"

record lease =
  l_id :: oid
  l_tenant :: oid
  l_room :: oid
  startDate :: date
  endDate :: "date option"
  rentPerMonth :: num
  depositAgreed :: num
  depositPaid :: num
  depositRefunded :: num
  billingDay :: int
  l_status :: lease_status
  l_notes :: "string option"

record invoice =
  i_id :: oid
  i_lease :: oid
  i_tenant :: oid
  i_room :: oid
  periodFrom :: date
  periodTo :: date
  issueDate :: date
  dueDate :: date
  baseAmount :: num
  lateFee :: num
  totalAmount :: num
  paidAmount :: num
  status :: status

record payment =
  p_id :: oid
  p_invoice :: oid
  p_lease :: oid
  p_tenant :: oid
  amount :: num
  p_date :: date
  p_mode :: mode
  p_note :: "string option"

record lightBill =
  b_id :: oid
  b_room :: oid
  b_tenant :: oid
  b_lease :: oid
  b_periodFrom :: date
  b_periodTo :: date
  unitsConsumed :: num
  ratePerUnit :: num
  b_totalAmount :: num
  b_paidAmount :: num
  b_issueDate :: date
  b_dueDate :: date
  b_status :: status
  fixedCharge :: num
  tax :: num
  b_notes :: "string option"

record lateFeeConfig =
  fee_type :: fee_type
  graceDays :: num
  perDayAmount :: num
  percentage :: num

record settings =
  defaultBillingDay :: num
  lateFeeConfig :: lateFeeConfig

text \<open>
  The database: one list per collection, the singleton settings document, and the counter
  that stands for the generation of fresh ObjectIds.
\<close>

record db =
  tenants :: "oid list"
  rooms :: "room list"
  leases :: "lease list"
  invoices :: "invoice list"
  payments :: "payment list"
  lightBills :: "lightBill list"
  settings :: "settings option"
  nextId :: oid

text \<open>
  The failures of the routes, named as the specification names them. The routes answer
  HTTP 404 for \<open>NotFound\<close> and HTTP 400 with a distinct message for each of the others.
\<close>

datatype error = NotFound | InvalidAmount | InvalidInput | Conflict | FailedPrecondition

section \<open>JavaScript dates\<close>

text \<open>
  The local time zone is taken to be UTC. \<open>mkDate y m d\<close> is \<open>new Date(y, m, d)\<close>: the
  month index is zero-based and may overflow into the next years, the day may overflow into
  the neighbouring months (day 0 is the last day of the month before).
\<close>

definition msPerDay :: int where
  "msPerDay = 1000 * 60 * 60 * 24"

definition days_from_civil :: "int \<Rightarrow> int \<Rightarrow> int \<Rightarrow> int" where
  "days_from_civil y m d =
     (let y1 = (if m \<le> 2 then y - 1 else y);
          era = y1 div 400;
          yoe = y1 - era * 400;
          doy = (153 * (if m > 2 then m - 3 else m + 9) + 2) div 5 + d - 1;
          doe = yoe * 365 + yoe div 4 - yoe div 100 + doy
      in era * 146097 + doe - 719468)"

definition civil_from_days :: "int \<Rightarrow> int \<times> int \<times> int" where
  "civil_from_days z =
     (let z1 = z + 719468;
          era = z1 div 146097;
          doe = z1 - era * 146097;
          yoe = (doe - doe div 1460 + doe div 36524 - doe div 146096) div 365;
          doy = doe - (365 * yoe + yoe div 4 - yoe div 100);
          mp = (5 * doy + 2) div 153;
          d = doy - (153 * mp + 2) div 5 + 1;
          m = (if mp < 10 then mp + 3 else mp - 9);
          y = yoe + era * 400
      in (if m \<le> 2 then y + 1 else y, m, d))"

definition mkDate :: "int \<Rightarrow> int \<Rightarrow> int \<Rightarrow> date" where
  "mkDate y m d = (days_from_civil (y + m div 12) (m mod 12 + 1) 1 + (d - 1)) * msPerDay"

definition getFullYear :: "date \<Rightarrow> int" where
  "getFullYear t = fst (civil_from_days (t div msPerDay))"

definition getMonth :: "date \<Rightarrow> int" where
  "getMonth t = fst (snd (civil_from_days (t div msPerDay))) - 1"

definition getDate :: "date \<Rightarrow> int" where
  "getDate t = snd (snd (civil_from_days (t div msPerDay)))"

section \<open>Collections\<close>

definition invoice_byId :: "oid \<Rightarrow> invoice list \<Rightarrow> invoice option" where
  "invoice_byId k xs = find (\<lambda>i. i_id i = k) xs"

definition invoice_save :: "invoice \<Rightarrow> invoice list \<Rightarrow> invoice list" where
  "invoice_save x xs = map (\<lambda>i. if i_id i = i_id x then x else i) xs"

section \<open>Payment ledger: POST /api/invoices/:id/pay (routes/invoiceRoutes.js)\<close>

text \<open>
  The request body gives \<open>amount\<close>, \<open>date\<close>, \<open>mode\<close> and \<open>note\<close>, each possibly
  absent; \<open>now\<close> is the clock. \<open>!amount || amount <= 0\<close> rejects an absent amount, zero
  and every negative amount before the invoice is looked up. \<open>invoice.paidAmount || 0\<close>
  is the paid amount itself, since the field is a number. The result is the response and the
  database after the request; the payment notification sits in its own try/catch and is not
  part of the model.
\<close>

definition payInvoice ::
  "oid \<Rightarrow> num option \<Rightarrow> date option \<Rightarrow> mode option \<Rightarrow> string option \<Rightarrow> date \<Rightarrow> db
     \<Rightarrow> (error + payment \<times> invoice) \<times> db" where
  "payInvoice k amt dt md nt now d =
     (case amt of
        None \<Rightarrow> (Inl InvalidAmount, d)
      | Some a \<Rightarrow>
          if a \<le> 0 then (Inl InvalidAmount, d)
          else
            (case invoice_byId k (invoices d) of
               None \<Rightarrow> (Inl NotFound, d)
             | Some invoice \<Rightarrow>
                 let newPaidAmount = paidAmount invoice + a in
                 if newPaidAmount > totalAmount invoice then (Inl Conflict, d)
                 else
                   let pay = \<lparr> p_id = nextId d, p_invoice = i_id invoice, p_lease = i_lease invoice,
                               p_tenant = i_tenant invoice, amount = a,
                               p_date = (case dt of None \<Rightarrow> now | Some t \<Rightarrow> t),
                               p_mode = (case md of None \<Rightarrow> Cash | Some m \<Rightarrow> m),
                               p_note = nt \<rparr>;
                       inv1 = invoice \<lparr> paidAmount := newPaidAmount \<rparr>;
                       inv2 = (if paidAmount inv1 \<ge> totalAmount inv1 then inv1 \<lparr> status := Paid \<rparr>
                               else if paidAmount inv1 > 0 then inv1 \<lparr> status := Partially_paid \<rparr>
                               else inv1)
                   in (Inr (pay, inv2),
                       d \<lparr> payments := payments d @ [pay],
                          invoices := invoice_save inv2 (invoices d),
                          nextId := Suc (nextId d) \<rparr>)))"

section \<open>Billing engine: monthly invoice generation\<close>

text \<open>
  \<open>Invoice.create\<close> fills the schema defaults: \<open>lateFee = 0\<close>, \<open>paidAmount = 0\<close>,
  \<open>status = unpaid\<close>. Tenants and rooms are never deleted, so the populated
  \<open>lease.tenant\<close> and \<open>lease.room\<close> are always present. The notification written after each
  creation sits in its own try/catch and is not part of the model.
\<close>

definition newInvoice :: "oid \<Rightarrow> lease \<Rightarrow> date \<Rightarrow> date \<Rightarrow> date \<Rightarrow> date \<Rightarrow> invoice" where
  "newInvoice k lease pf pt issue due =
     \<lparr> i_id = k, i_lease = l_id lease, i_tenant = l_tenant lease, i_room = l_room lease,
       periodFrom = pf, periodTo = pt, issueDate = issue, dueDate = due,
       baseAmount = rentPerMonth lease, lateFee = 0, totalAmount = rentPerMonth lease,
       paidAmount = 0, status = Unpaid \<rparr>"

text \<open>
  The loop over the active leases. \<open>pf\<close> and \<open>pt\<close> are the period searched for and
  stored, \<open>year\<close> and \<open>month\<close> are the first two arguments of
  \<open>new Date(year, month, lease.billingDay || 1)\<close>.
\<close>

fun generate_loop ::
  "date \<Rightarrow> date \<Rightarrow> date \<Rightarrow> int \<Rightarrow> int \<Rightarrow> lease list \<Rightarrow> invoice list \<Rightarrow> db \<Rightarrow> invoice list \<times> db" where
  "generate_loop today pf pt year month [] created d = (created, d)"
| "generate_loop today pf pt year month (lease # rest) created d =
     (case find (\<lambda>i. i_lease i = l_id lease \<and> periodFrom i = pf \<and> periodTo i = pt) (invoices d) of
        Some existingInvoice \<Rightarrow> generate_loop today pf pt year month rest created d
      | None \<Rightarrow>
          let due = mkDate year month (if billingDay lease = 0 then 1 else billingDay lease);
              invoice = newInvoice (nextId d) lease pf pt today due
          in generate_loop today pf pt year month rest (created @ [invoice])
               (d \<lparr> invoices := invoices d @ [invoice], nextId := Suc (nextId d) \<rparr>))"

text \<open>POST /api/invoices/generate-monthly (routes/invoiceRoutes.js): \<open>month\<close> is
  \<open>today.getMonth() + 1\<close>, the period is built from \<open>today.getMonth()\<close>.\<close>

definition generateMonthly :: "date \<Rightarrow> db \<Rightarrow> invoice list \<times> db" where
  "generateMonthly today d =
     (let year = getFullYear today;
          month = getMonth today + 1;
          firstDay = mkDate (getFullYear today) (getMonth today) 1;
          lastDay = mkDate (getFullYear today) (getMonth today + 1) 0
      in generate_loop today firstDay lastDay year month
           (filter (\<lambda>l. l_status l = Active) (leases d)) [] d)"

text \<open>The scheduled task (services/invoiceCronService.js): \<open>month\<close> is
  \<open>today.getMonth()\<close>.\<close>

definition scheduleMonthlyInvoiceGeneration :: "date \<Rightarrow> db \<Rightarrow> invoice list \<times> db" where
  "scheduleMonthlyInvoiceGeneration today d =
     (let month = getMonth today;
          year = getFullYear today
      in generate_loop today (mkDate year month 1) (mkDate year (month + 1) 0) year month
           (filter (\<lambda>l. l_status l = Active) (leases d)) [] d)"

text \<open>The other copy of the invoice routes in the repository has the same manual trigger
  with \<open>month = today.getMonth()\<close>.\<close>

definition generateMonthly_manual :: "date \<Rightarrow> db \<Rightarrow> invoice list \<times> db" where
  "generateMonthly_manual today d =
     (let month = getMonth today;
          year = getFullYear today
      in generate_loop today (mkDate year month 1) (mkDate year (month + 1) 0) year month
           (filter (\<lambda>l. l_status l = Active) (leases d)) [] d)"

section \<open>Late-fee recalculation\<close>

text \<open>
  \<open>Math.floor((today - invoice.dueDate) / msPerDay)\<close> is the floor division of integers.
  The schema restricts \<open>lateFeeConfig.type\<close> to the two values of \<open>fee_type\<close>.
\<close>

definition computeLateFee :: "lateFeeConfig \<Rightarrow> date \<Rightarrow> invoice \<Rightarrow> num" where
  "computeLateFee cfg today invoice =
     (let diffDays = (today - dueDate invoice) div msPerDay in
      if of_int diffDays > graceDays cfg then
        let effectiveDays = of_int diffDays - graceDays cfg in
        (case fee_type cfg of
           Per_day \<Rightarrow> effectiveDays * perDayAmount cfg
         | Percentage \<Rightarrow> (baseAmount invoice * percentage cfg) / 100)
      else 0)"

text \<open>POST /api/invoices/recalculate-late-fees (routes/invoiceRoutes.js): the loop runs over
  the documents fetched before it starts and saves a document only when the fee differs.\<close>

fun recalc_loop ::
  "lateFeeConfig \<Rightarrow> date \<Rightarrow> invoice list \<Rightarrow> nat \<Rightarrow> invoice list \<Rightarrow> nat \<times> invoice list" where
  "recalc_loop cfg today [] updatedCount coll = (updatedCount, coll)"
| "recalc_loop cfg today (invoice # rest) updatedCount coll =
     (let fee = computeLateFee cfg today invoice in
      if fee \<noteq> lateFee invoice then
        recalc_loop cfg today rest (Suc updatedCount)
          (invoice_save (invoice \<lparr> lateFee := fee, totalAmount := baseAmount invoice + fee \<rparr>) coll)
      else recalc_loop cfg today rest updatedCount coll)"

definition recalculateLateFees :: "date \<Rightarrow> db \<Rightarrow> (error + nat) \<times> db" where
  "recalculateLateFees today d =
     (case settings d of
        None \<Rightarrow> (Inl FailedPrecondition, d)
      | Some s \<Rightarrow>
          let r = recalc_loop (lateFeeConfig s) today
                    (filter (\<lambda>i. status i = Unpaid \<or> status i = Partially_paid) (invoices d))
                    0 (invoices d)
          in (Inr (fst r), d \<lparr> invoices := snd r \<rparr>))"

text \<open>The other copy of the invoice routes: every fetched invoice is rewritten, its status
  is derived again, and every one is counted.\<close>

definition rederive :: "date \<Rightarrow> invoice \<Rightarrow> invoice" where
  "rederive today invoice =
     (if paidAmount invoice \<ge> totalAmount invoice then invoice \<lparr> status := Paid \<rparr>
      else if today > dueDate invoice then
        invoice \<lparr> status := (if paidAmount invoice > 0 then Partially_paid else Overdue) \<rparr>
      else invoice)"

fun recalc_loop_always ::
  "lateFeeConfig \<Rightarrow> date \<Rightarrow> invoice list \<Rightarrow> nat \<Rightarrow> invoice list \<Rightarrow> nat \<times> invoice list" where
  "recalc_loop_always cfg today [] updatedCount coll = (updatedCount, coll)"
| "recalc_loop_always cfg today (invoice # rest) updatedCount coll =
     (let fee = computeLateFee cfg today invoice in
      recalc_loop_always cfg today rest (Suc updatedCount)
        (invoice_save
           (rederive today (invoice \<lparr> lateFee := fee, totalAmount := baseAmount invoice + fee \<rparr>))
           coll))"

definition recalculateLateFees_always :: "date \<Rightarrow> db \<Rightarrow> (error + nat) \<times> db" where
  "recalculateLateFees_always today d =
     (case settings d of
        None \<Rightarrow> (Inl FailedPrecondition, d)
      | Some s \<Rightarrow>
          let r = recalc_loop_always (lateFeeConfig s) today
                    (filter (\<lambda>i. status i = Unpaid \<or> status i = Partially_paid) (invoices d))
                    0 (invoices d)
          in (Inr (fst r), d \<lparr> invoices := snd r \<rparr>))"

section \<open>Lease lifecycle (routes/leaseRoutes.js)\<close>

text \<open>A MongoDB comparison on a missing field matches nothing: a lease without
  \<open>endDate\<close> satisfies neither \<open>endDate: {$gte: x}\<close> nor \<open>endDate: {$lte: x}\<close>.\<close>

definition field_gte :: "date option \<Rightarrow> date \<Rightarrow> bool" where
  "field_gte f x = (case f of None \<Rightarrow> False | Some v \<Rightarrow> v \<ge> x)"

definition field_lte :: "date option \<Rightarrow> date \<Rightarrow> bool" where
  "field_lte f x = (case f of None \<Rightarrow> False | Some v \<Rightarrow> v \<le> x)"

definition leaseQuery :: "oid \<Rightarrow> date \<Rightarrow> date option \<Rightarrow> lease \<Rightarrow> bool" where
  "leaseQuery room start end l =
     (l_room l = room \<and> (l_status l = Upcoming \<or> l_status l = Active) \<and>
      (case end of
         Some e \<Rightarrow>
           (startDate l \<le> start \<and> field_gte (endDate l) start) \<or>
           (startDate l \<le> e \<and> field_gte (endDate l) e) \<or>
           (startDate l \<ge> start \<and> field_lte (endDate l) e)
       | None \<Rightarrow> startDate l \<le> start))"

definition room_update :: "oid \<Rightarrow> room_status \<Rightarrow> oid option \<Rightarrow> room list \<Rightarrow> room list" where
  "room_update k st cl rs =
     map (\<lambda>r. if r_id r = k then r \<lparr> r_status := st, currentLease := cl \<rparr> else r) rs"

text \<open>POST /api/leases. \<open>!rentPerMonth || rentPerMonth <= 0\<close> rejects an absent, zero or
  negative rent; \<open>!depositAgreed || depositAgreed < 0\<close> rejects an absent, zero or negative
  deposit. A lease created without \<open>billingDay\<close> gets the schema default 1.\<close>

definition createLease ::
  "oid option \<Rightarrow> oid option \<Rightarrow> date option \<Rightarrow> date option \<Rightarrow> num option \<Rightarrow> num option
     \<Rightarrow> int option \<Rightarrow> db \<Rightarrow> (error + lease) \<times> db" where
  "createLease tenant room start end rent deposit bday d =
     (case (tenant, room) of
        (Some t, Some r) \<Rightarrow>
          (case start of
             None \<Rightarrow> (Inl InvalidInput, d)
           | Some sd \<Rightarrow>
               (case rent of
                  None \<Rightarrow> (Inl InvalidInput, d)
                | Some rpm \<Rightarrow>
                    if rpm \<le> 0 then (Inl InvalidInput, d)
                    else
                      (case deposit of
                         None \<Rightarrow> (Inl InvalidInput, d)
                       | Some dep \<Rightarrow>
                           if dep = 0 \<or> dep < 0 then (Inl InvalidInput, d)
                           else if t \<notin> set (tenants d) then (Inl NotFound, d)
                           else
                             (case find (\<lambda>x. r_id x = r) (rooms d) of
                                None \<Rightarrow> (Inl NotFound, d)
                              | Some roomExists \<Rightarrow>
                                  if r_status roomExists = Occupied then (Inl Conflict, d)
                                  else
                                    (case find (leaseQuery r sd end) (leases d) of
                                       Some existingLease \<Rightarrow> (Inl Conflict, d)
                                     | None \<Rightarrow>
                                         let lease = \<lparr> l_id = nextId d, l_tenant = t, l_room = r,
                                               startDate = sd, endDate = end, rentPerMonth = rpm,
                                               depositAgreed = dep, depositPaid = 0,
                                               depositRefunded = 0,
                                               billingDay = (case bday of None \<Rightarrow> 1 | Some b \<Rightarrow> b),
                                               l_status = Active, l_notes = None \<rparr>
                                         in (Inr lease,
                                             d \<lparr> leases := leases d @ [lease],
                                                rooms := room_update r Occupied (Some (l_id lease)) (rooms d),
                                                nextId := Suc (nextId d) \<rparr>))))))
      | _ \<Rightarrow> (Inl InvalidInput, d))"

text \<open>PATCH /api/leases/:id/end.\<close>

definition endLease :: "oid \<Rightarrow> date option \<Rightarrow> string option \<Rightarrow> date \<Rightarrow> db \<Rightarrow> (error + lease) \<times> db" where
  "endLease k end notes now d =
     (case find (\<lambda>l. l_id l = k) (leases d) of
        None \<Rightarrow> (Inl NotFound, d)
      | Some lease \<Rightarrow>
          let lease1 = lease \<lparr> endDate := Some (case end of None \<Rightarrow> now | Some e \<Rightarrow> e),
                               l_status := Ended, l_notes := notes \<rparr>
          in (Inr lease1,
              d \<lparr> leases := map (\<lambda>l. if l_id l = l_id lease1 then lease1 else l) (leases d),
                 rooms := room_update (l_room lease1) Vacant None (rooms d) \<rparr>))"

text \<open>The overlap test of the specification: a missing end is unbounded, and
  \<open>[a1, b1)\<close>, \<open>[a2, b2)\<close> overlap iff \<open>a1 \<le> b2\<close> and \<open>a2 \<le> b1\<close>.\<close>

definition le_end :: "date \<Rightarrow> date option \<Rightarrow> bool" where
  "le_end a b = (case b of None \<Rightarrow> True | Some v \<Rightarrow> a \<le> v)"

definition overlaps :: "date \<Rightarrow> date option \<Rightarrow> date \<Rightarrow> date option \<Rightarrow> bool" where
  "overlaps a1 b1 a2 b2 = (le_end a1 b2 \<and> le_end a2 b1)"

section \<open>Light bills (routes/lightBillRoutes.js)\<close>

record lightBillBody =
  q_room :: "oid option"
  q_tenant :: "oid option"
  q_lease :: "oid option"
  q_periodFrom :: "date option"
  q_periodTo :: "date option"
  q_unitsConsumed :: "num option"
  q_ratePerUnit :: "num option"
  q_fixedCharge :: "num option"
  q_tax :: "num option"
  q_issueDate :: "date option"
  q_dueDate :: "date option"
  q_notes :: "string option"

definition or_else :: "'a option \<Rightarrow> 'a option \<Rightarrow> 'a option" where
  "or_else a b = (case a of None \<Rightarrow> b | Some v \<Rightarrow> Some v)"

text \<open>The first part of POST /api/light-bills: tenant and lease are taken from the room's
  active or upcoming lease, then period and dates from the most recently created invoice of
  that tenant and lease.\<close>

definition resolveBody :: "lightBillBody \<Rightarrow> db \<Rightarrow> lightBillBody" where
  "resolveBody q d =
     (let q1 =
            (case q_room q of
               Some r \<Rightarrow>
                 if q_tenant q = None \<or> q_lease q = None then
                   (case find (\<lambda>l. l_room l = r \<and> (l_status l = Active \<or> l_status l = Upcoming))
                           (leases d) of
                      Some activeLease \<Rightarrow>
                        q \<lparr> q_tenant := or_else (q_tenant q) (Some (l_tenant activeLease)),
                            q_lease := or_else (q_lease q) (Some (l_id activeLease)) \<rparr>
                    | None \<Rightarrow> q)
                 else q
             | None \<Rightarrow> q)
      in (case (q_tenant q1, q_lease q1) of
            (Some t, Some l) \<Rightarrow>
              if q_periodFrom q1 = None \<or> q_periodTo q1 = None \<or> q_issueDate q1 = None \<or>
                 q_dueDate q1 = None then
                (case find (\<lambda>i. i_tenant i = t \<and> i_lease i = l) (rev (invoices d)) of
                   Some latestInvoice \<Rightarrow>
                     q1 \<lparr> q_periodFrom := or_else (q_periodFrom q1) (Some (periodFrom latestInvoice)),
                          q_periodTo := or_else (q_periodTo q1) (Some (periodTo latestInvoice)),
                          q_issueDate := or_else (q_issueDate q1) (Some (issueDate latestInvoice)),
                          q_dueDate := or_else (q_dueDate q1) (Some (dueDate latestInvoice)) \<rparr>
                 | None \<Rightarrow> q1)
              else q1
          | _ \<Rightarrow> q1))"

definition samePeriod :: "oid \<Rightarrow> oid \<Rightarrow> oid \<Rightarrow> date \<Rightarrow> date \<Rightarrow> lightBill \<Rightarrow> bool" where
  "samePeriod r t l pf pt b =
     (b_room b = r \<and> b_tenant b = t \<and> b_lease b = l \<and> b_periodFrom b = pf \<and> b_periodTo b = pt)"

text \<open>The validation part of POST /api/light-bills, on the resolved body: the failure, or
  the document that \<open>LightBill.create\<close> stores (\<open>paidAmount\<close> and \<open>status\<close> take the
  schema defaults). \<open>fixedCharge\<close> and \<open>tax\<close> default to 0 and are not validated.\<close>

definition validateBody :: "lightBillBody \<Rightarrow> db \<Rightarrow> error + lightBill" where
  "validateBody q d =
     (case (q_room q, q_tenant q, q_lease q) of
        (Some r, Some t, Some l) \<Rightarrow>
          (case (q_periodFrom q, q_periodTo q) of
             (Some pf, Some pt) \<Rightarrow>
               if pf \<ge> pt then Inl InvalidInput
               else
                 (case q_unitsConsumed q of
                    None \<Rightarrow> Inl InvalidInput
                  | Some units \<Rightarrow>
                      if units \<le> 0 then Inl InvalidInput
                      else
                        (case q_ratePerUnit q of
                           None \<Rightarrow> Inl InvalidInput
                         | Some rate \<Rightarrow>
                             if rate \<le> 0 then Inl InvalidInput
                             else
                               (case (q_issueDate q, q_dueDate q) of
                                  (Some issue, Some due) \<Rightarrow>
                                    if find (\<lambda>x. r_id x = r) (rooms d) = None then Inl NotFound
                                    else if t \<notin> set (tenants d) then Inl NotFound
                                    else if find (\<lambda>x. l_id x = l) (leases d) = None then Inl NotFound
                                    else if find (samePeriod r t l pf pt) (lightBills d) \<noteq> None
                                      then Inl Conflict
                                    else
                                      let fixed = (case q_fixedCharge q of None \<Rightarrow> 0 | Some v \<Rightarrow> v);
                                          taxes = (case q_tax q of None \<Rightarrow> 0 | Some v \<Rightarrow> v)
                                      in Inr \<lparr> b_id = nextId d, b_room = r, b_tenant = t, b_lease = l,
                                               b_periodFrom = pf, b_periodTo = pt,
                                               unitsConsumed = units, ratePerUnit = rate,
                                               b_totalAmount = (units * rate) + fixed + taxes,
                                               b_paidAmount = 0, b_issueDate = issue,
                                               b_dueDate = due, b_status = Unpaid,
                                               fixedCharge = fixed, tax = taxes,
                                               b_notes = q_notes q \<rparr>
                                | _ \<Rightarrow> Inl InvalidInput)))
           | _ \<Rightarrow> Inl InvalidInput)
      | _ \<Rightarrow> Inl InvalidInput)"

definition createLightBill :: "lightBillBody \<Rightarrow> db \<Rightarrow> (error + lightBill) \<times> db" where
  "createLightBill q d =
     (case validateBody (resolveBody q d) d of
        Inl e \<Rightarrow> (Inl e, d)
      | Inr bill \<Rightarrow>
          (Inr bill, d \<lparr> lightBills := lightBills d @ [bill], nextId := Suc (nextId d) \<rparr>))"

definition bill_save :: "lightBill \<Rightarrow> lightBill list \<Rightarrow> lightBill list" where
  "bill_save x xs = map (\<lambda>b. if b_id b = b_id x then x else b) xs"

text \<open>POST /api/light-bills/:id/pay: the payment is recorded on the bill itself.\<close>

definition payLightBill ::
  "oid \<Rightarrow> num option \<Rightarrow> date option \<Rightarrow> mode option \<Rightarrow> string option \<Rightarrow> db
     \<Rightarrow> (error + lightBill) \<times> db" where
  "payLightBill k amt dt md nt d =
     (case amt of
        None \<Rightarrow> (Inl InvalidAmount, d)
      | Some a \<Rightarrow>
          if a \<le> 0 then (Inl InvalidAmount, d)
          else if dt = None then (Inl InvalidInput, d)
          else
            (case find (\<lambda>b. b_id b = k) (lightBills d) of
               None \<Rightarrow> (Inl NotFound, d)
             | Some lightBill \<Rightarrow>
                 let newPaidAmount = b_paidAmount lightBill + a in
                 if newPaidAmount > b_totalAmount lightBill then (Inl Conflict, d)
                 else
                   let bill1 = lightBill \<lparr> b_paidAmount := newPaidAmount \<rparr>;
                       bill2 = (if b_paidAmount bill1 \<ge> b_totalAmount bill1 then bill1 \<lparr> b_status := Paid \<rparr>
                                else if b_paidAmount bill1 > 0 then bill1 \<lparr> b_status := Partially_paid \<rparr>
                                else bill1)
                   in (Inr bill2, d \<lparr> lightBills := bill_save bill2 (lightBills d) \<rparr>)))"

text \<open>PUT /api/light-bills/:id: a field of the body that is absent is \<open>None\<close>.\<close>

record lightBillPatch =
  u_periodFrom :: "date option"
  u_periodTo :: "date option"
  u_unitsConsumed :: "num option"
  u_ratePerUnit :: "num option"
  u_fixedCharge :: "num option"
  u_tax :: "num option"
  u_issueDate :: "date option"
  u_dueDate :: "date option"
  u_notes :: "string option"

definition get_or :: "'a option \<Rightarrow> 'a \<Rightarrow> 'a" where
  "get_or a b = (case a of None \<Rightarrow> b | Some v \<Rightarrow> v)"

definition patchInvalid :: "lightBillPatch \<Rightarrow> bool" where
  "patchInvalid u =
     ((case (u_periodFrom u, u_periodTo u) of (Some pf, Some pt) \<Rightarrow> pf \<ge> pt | _ \<Rightarrow> False) \<or>
      (case (u_issueDate u, u_dueDate u) of (Some i, Some du) \<Rightarrow> i \<ge> du | _ \<Rightarrow> False) \<or>
      (case u_unitsConsumed u of Some v \<Rightarrow> v \<le> 0 | None \<Rightarrow> False) \<or>
      (case u_ratePerUnit u of Some v \<Rightarrow> v \<le> 0 | None \<Rightarrow> False))"

definition applyPatch :: "lightBillPatch \<Rightarrow> lightBill \<Rightarrow> lightBill" where
  "applyPatch u lightBill =
     (let b1 = lightBill \<lparr> b_periodFrom := get_or (u_periodFrom u) (b_periodFrom lightBill),
                            b_periodTo := get_or (u_periodTo u) (b_periodTo lightBill),
                            unitsConsumed := get_or (u_unitsConsumed u) (unitsConsumed lightBill),
                            ratePerUnit := get_or (u_ratePerUnit u) (ratePerUnit lightBill),
                            fixedCharge := get_or (u_fixedCharge u) (fixedCharge lightBill),
                            tax := get_or (u_tax u) (tax lightBill),
                            b_issueDate := get_or (u_issueDate u) (b_issueDate lightBill),
                            b_dueDate := get_or (u_dueDate u) (b_dueDate lightBill),
                            b_notes := or_else (u_notes u) (b_notes lightBill) \<rparr>
      in if u_unitsConsumed u \<noteq> None \<or> u_ratePerUnit u \<noteq> None \<or>
            u_fixedCharge u \<noteq> None \<or> u_tax u \<noteq> None
         then b1 \<lparr> b_totalAmount := (unitsConsumed b1 * ratePerUnit b1) + fixedCharge b1 + tax b1 \<rparr>
         else b1)"

definition updateLightBill :: "oid \<Rightarrow> lightBillPatch \<Rightarrow> db \<Rightarrow> (error + lightBill) \<times> db" where
  "updateLightBill k u d =
     (case find (\<lambda>b. b_id b = k) (lightBills d) of
        None \<Rightarrow> (Inl NotFound, d)
      | Some lightBill \<Rightarrow>
          if patchInvalid u then (Inl InvalidInput, d)
          else if (u_periodFrom u \<noteq> None \<or> u_periodTo u \<noteq> None) \<and>
                  find (\<lambda>b. samePeriod (b_room lightBill) (b_tenant lightBill) (b_lease lightBill)
                              (get_or (u_periodFrom u) (b_periodFrom lightBill))
                              (get_or (u_periodTo u) (b_periodTo lightBill)) b \<and> b_id b \<noteq> k)
                    (lightBills d) \<noteq> None
            then (Inl Conflict, d)
          else
            let bill1 = applyPatch u lightBill
            in (Inr bill1, d \<lparr> lightBills := bill_save bill1 (lightBills d) \<rparr>))"

text \<open>DELETE /api/light-bills/:id.\<close>

definition deleteLightBill :: "oid \<Rightarrow> db \<Rightarrow> (error + unit) \<times> db" where
  "deleteLightBill k d =
     (case find (\<lambda>b. b_id b = k) (lightBills d) of
        None \<Rightarrow> (Inl NotFound, d)
      | Some lightBill \<Rightarrow> (Inr (), d \<lparr> lightBills := filter (\<lambda>b. b_id b \<noteq> k) (lightBills d) \<rparr>))"

section \<open>Reachable states\<close>

text \<open>
  The states that the routes and the scheduled task can produce from the empty database.
  The tenant and room routes (create and update, with the status and the current lease of a
  room taken from the request body) are the step \<open>r_directory\<close>, PUT /api/settings is
  \<open>r_settings\<close>. Both copies of the invoice routes are included.
\<close>

definition init_db :: db where
  "init_db =
     \<lparr> tenants = [], rooms = [], leases = [], invoices = [], payments = [], lightBills = [],
       settings = None, nextId = 0 \<rparr>"

inductive reachable :: "db \<Rightarrow> bool" where
  r_init: "reachable init_db"
| r_directory: "reachable d \<Longrightarrow> reachable (d \<lparr> tenants := ts, rooms := rs \<rparr>)"
| r_settings: "reachable d \<Longrightarrow> reachable (d \<lparr> settings := Some s \<rparr>)"
| r_createLease: "reachable d \<Longrightarrow> reachable (snd (createLease t r sd ed rent dep bd d))"
| r_endLease: "reachable d \<Longrightarrow> reachable (snd (endLease k ed notes now d))"
| r_generateMonthly: "reachable d \<Longrightarrow> reachable (snd (generateMonthly today d))"
| r_schedule: "reachable d \<Longrightarrow> reachable (snd (scheduleMonthlyInvoiceGeneration today d))"
| r_generate_manual: "reachable d \<Longrightarrow> reachable (snd (generateMonthly_manual today d))"
| r_payInvoice: "reachable d \<Longrightarrow> reachable (snd (payInvoice k amt dt md nt now d))"
| r_recalculate: "reachable d \<Longrightarrow> reachable (snd (recalculateLateFees today d))"
| r_recalculate_always: "reachable d \<Longrightarrow> reachable (snd (recalculateLateFees_always today d))"
| r_createLightBill: "reachable d \<Longrightarrow> reachable (snd (createLightBill q d))"
| r_payLightBill: "reachable d \<Longrightarrow> reachable (snd (payLightBill k amt dt md nt d))"
| r_updateLightBill: "reachable d \<Longrightarrow> reachable (snd (updateLightBill k u d))"
| r_deleteLightBill: "reachable d \<Longrightarrow> reachable (snd (deleteLightBill k d))"

text \<open>The key that the duplicate check of the generation compares.\<close>

definition period_key :: "invoice \<Rightarrow> oid \<times> date \<times> date" where
  "period_key i = (i_lease i, periodFrom i, periodTo i)"

text \<open>What holds of the collections in every reachable state.\<close>

definition invoices_wf :: "oid \<Rightarrow> invoice list \<Rightarrow> bool" where
  "invoices_wf n xs \<longleftrightarrow>
     distinct (map i_id xs) \<and> distinct (map period_key xs) \<and>
     (\<forall>i \<in> set xs. i_id i < n \<and> totalAmount i = baseAmount i + lateFee i)"

definition bills_wf :: "lightBill list \<Rightarrow> bool" where
  "bills_wf bs \<longleftrightarrow> (\<forall>b \<in> set bs. b_status b \<noteq> Overdue \<and> 0 \<le> b_paidAmount b)"

definition leases_wf :: "lease list \<Rightarrow> bool" where
  "leases_wf ls \<longleftrightarrow> (\<forall>l \<in> set ls. 0 < rentPerMonth l)"

definition db_wf :: "db \<Rightarrow> bool" where
  "db_wf d \<longleftrightarrow>
     invoices_wf (nextId d) (invoices d) \<and> bills_wf (lightBills d) \<and> leases_wf (leases d)"

text \<open>One iteration of each recalculation loop, as a function on the document.\<close>

definition refreshed :: "lateFeeConfig \<Rightarrow> date \<Rightarrow> invoice \<Rightarrow> invoice" where
  "refreshed cfg today invoice =
     (if computeLateFee cfg today invoice \<noteq> lateFee invoice
      then invoice \<lparr> lateFee := computeLateFee cfg today invoice,
                     totalAmount := baseAmount invoice + computeLateFee cfg today invoice \<rparr>
      else invoice)"

definition refreshed_always :: "lateFeeConfig \<Rightarrow> date \<Rightarrow> invoice \<Rightarrow> invoice" where
  "refreshed_always cfg today invoice =
     rederive today (invoice \<lparr> lateFee := computeLateFee cfg today invoice,
                                totalAmount := baseAmount invoice + computeLateFee cfg today invoice \<rparr>)"

section \<open>The amount invariant of the specification\<close>

definition amounts_ok :: "db \<Rightarrow> bool" where
  "amounts_ok d \<longleftrightarrow>
     (\<forall>i \<in> set (invoices d). 0 \<le> paidAmount i \<and> paidAmount i \<le> totalAmount i) \<and>
     (\<forall>b \<in> set (lightBills d). 0 \<le> b_paidAmount b \<and> b_paidAmount b \<le> b_totalAmount b)"

definition paid_nonneg :: "db \<Rightarrow> bool" where
  "paid_nonneg d \<longleftrightarrow>
     (\<forall>i \<in> set (invoices d). 0 \<le> paidAmount i) \<and>
     (\<forall>b \<in> set (lightBills d). 0 \<le> b_paidAmount b)"

section \<open>Concrete states\<close>

text \<open>1 March 2024 02:00, 7 March 00:00, 10 March 12:00 and 15 March 00:00.\<close>

definition march1 :: date where
  "march1 = 1709258400000"

definition march7 :: date where
  "march7 = 1709769600000"

definition march10 :: date where
  "march10 = 1710072000000"

definition march15 :: date where
  "march15 = 1710460800000"

text \<open>The schema defaults of the settings, and settings with a grace period of 30 days.\<close>

definition default_settings :: settings where
  "default_settings =
     \<lparr> defaultBillingDay = 1,
       lateFeeConfig = \<lparr> fee_type = Per_day, graceDays = 3, perDayAmount = 5, percentage = 1 \<rparr> \<rparr>"

definition lenient_settings :: settings where
  "lenient_settings =
     \<lparr> defaultBillingDay = 1,
       lateFeeConfig = \<lparr> fee_type = Per_day, graceDays = 30, perDayAmount = 5, percentage = 1 \<rparr> \<rparr>"

text \<open>One tenant and one vacant room, with the default settings.\<close>

definition room_db :: db where
  "room_db =
     \<lparr> tenants = [1], rooms = [\<lparr> r_id = 1, r_status = Vacant, currentLease = None \<rparr>],
       leases = [], invoices = [], payments = [], lightBills = [],
       settings = Some default_settings, nextId = 0 \<rparr>"

text \<open>The room is let from time 0 for a rent of 5000 with billing day 5.\<close>

definition rent5000_lease :: lease where
  "rent5000_lease =
     \<lparr> l_id = 0, l_tenant = 1, l_room = 1, startDate = 0, endDate = None, rentPerMonth = 5000,
       depositAgreed = 10000, depositPaid = 0, depositRefunded = 0, billingDay = 5,
       l_status = Active, l_notes = None \<rparr>"

definition leased_db :: db where
  "leased_db =
     \<lparr> tenants = [1], rooms = [\<lparr> r_id = 1, r_status = Occupied, currentLease = Some 0 \<rparr>],
       leases = [rent5000_lease], invoices = [], payments = [], lightBills = [],
       settings = Some default_settings, nextId = 1 \<rparr>"

text \<open>The scheduled task has billed March 2024 on 1 March: the invoice is due on 5 March.\<close>

definition march_invoice :: invoice where
  "march_invoice =
     \<lparr> i_id = 1, i_lease = 0, i_tenant = 1, i_room = 1, periodFrom = 1709251200000,
       periodTo = 1711843200000, issueDate = march1, dueDate = 1709596800000,
       baseAmount = 5000, lateFee = 0, totalAmount = 5000, paidAmount = 0, status = Unpaid \<rparr>"

definition billed_db :: db where
  "billed_db = leased_db \<lparr> invoices := [march_invoice], nextId := 2 \<rparr>"

text \<open>On 15 March the late fee of 35 is added and 5020 are paid; then the grace period is
  set to 30 days and the fees are recalculated, which takes the fee off again.\<close>

definition march_payment :: payment where
  "march_payment =
     \<lparr> p_id = 2, p_invoice = 1, p_lease = 0, p_tenant = 1, amount = 5020, p_date = march15,
       p_mode = Cash, p_note = None \<rparr>"

definition charged_db :: db where
  "charged_db =
     billed_db \<lparr> invoices := [march_invoice \<lparr> lateFee := 35, totalAmount := 5035,
                                 paidAmount := 5020, status := Partially_paid \<rparr>],
                payments := [march_payment], settings := Some lenient_settings, nextId := 3 \<rparr>"

definition overpaid_invoice :: invoice where
  "overpaid_invoice = march_invoice \<lparr> paidAmount := 5020, status := Partially_paid \<rparr>"

definition overpaid_db :: db where
  "overpaid_db = charged_db \<lparr> invoices := [overpaid_invoice] \<rparr>"

text \<open>A light bill for room 1: 100 units at 8, fixed charge 50, tax 20; then 500 are paid.\<close>

definition room_bill_body :: lightBillBody where
  "room_bill_body =
     \<lparr> q_room = Some 1, q_tenant = None, q_lease = None, q_periodFrom = None, q_periodTo = None,
       q_unitsConsumed = Some 100, q_ratePerUnit = Some 8, q_fixedCharge = Some 50,
       q_tax = Some 20, q_issueDate = None, q_dueDate = None, q_notes = None \<rparr>"

definition room_bill :: lightBill where
  "room_bill =
     \<lparr> b_id = 2, b_room = 1, b_tenant = 1, b_lease = 0, b_periodFrom = 1709251200000,
       b_periodTo = 1711843200000, unitsConsumed = 100, ratePerUnit = 8, b_totalAmount = 870,
       b_paidAmount = 0, b_issueDate = march1, b_dueDate = 1709596800000,
       b_status = Unpaid, fixedCharge = 50, tax = 20, b_notes = None \<rparr>"

definition bill_db :: db where
  "bill_db = billed_db \<lparr> lightBills := [room_bill], nextId := 3 \<rparr>"

definition half_paid_db :: db where
  "half_paid_db =
     bill_db \<lparr> lightBills := [room_bill \<lparr> b_paidAmount := 500, b_status := Partially_paid \<rparr>] \<rparr>"

definition fewer_units :: lightBillPatch where
  "fewer_units =
     \<lparr> u_periodFrom = None, u_periodTo = None, u_unitsConsumed = Some 4, u_ratePerUnit = None,
       u_fixedCharge = None, u_tax = None, u_issueDate = None, u_dueDate = None, u_notes = None \<rparr>"

text \<open>The same bill request for April 2024.\<close>

definition april_bill_body :: lightBillBody where
  "april_bill_body =
     room_bill_body \<lparr> q_periodFrom := Some 1711929600000, q_periodTo := Some 1714435200000 \<rparr>"





text \<open>Leases on room 1: a lease from 0 is created and ended, a second lease from 100 without
  end is created, and the first lease is ended once more, which marks the room vacant
  again.\<close>

definition lease_summary :: "lease \<Rightarrow> oid \<times> lease_status \<times> date \<times> date option" where
  "lease_summary l = (l_room l, l_status l, startDate l, endDate l)"

definition lease_trace :: db where
  "lease_trace =
     snd (endLease 0 None None 60
       (snd (createLease (Some 1) (Some 1) (Some 100) None (Some 5000) (Some 10000) None
         (snd (endLease 0 (Some 50) None 50
           (snd (createLease (Some 1) (Some 1) (Some 0) None (Some 5000) (Some 10000) None
             room_db)))))))"

section \<open>Saving documents\<close>

lemma same_id_same_doc:
  "distinct (map i_id coll) \<Longrightarrow> x \<in> set coll \<Longrightarrow> y \<in> set coll \<Longrightarrow> i_id x = i_id y \<Longrightarrow> x = y"
  by (metis distinct_map inj_onD)

lemma invoice_save_eq:
  assumes "distinct (map i_id coll)" "x \<in> set coll" "i_id x' = i_id x"
  shows "invoice_save x' coll = map (\<lambda>i. if i = x then x' else i) coll"
  unfolding invoice_save_def
proof (rule map_cong [OF refl])
  fix i assume "i \<in> set coll"
  then have "(i_id i = i_id x') = (i = x)"
    using assms same_id_same_doc by auto
  then show "(if i_id i = i_id x' then x' else i) = (if i = x then x' else i)" by simp
qed

lemma invoice_save_ids: "map i_id (invoice_save x coll) = map i_id coll"
  by (induction coll) (auto simp: invoice_save_def)

lemma refreshed_id [simp]: "i_id (refreshed cfg today i) = i_id i"
  by (simp add: refreshed_def)

section \<open>The recalculation loops as maps over the collection\<close>

lemma recalc_loop_eq:
  assumes "distinct (map i_id coll)" "distinct (map i_id xs)" "set xs \<subseteq> set coll"
  shows "recalc_loop cfg today xs n coll =
           (n + length (filter (\<lambda>i. computeLateFee cfg today i \<noteq> lateFee i) xs),
            map (\<lambda>i. if i \<in> set xs then refreshed cfg today i else i) coll)"
  using assms
proof (induction xs arbitrary: n coll)
  case Nil
  then show ?case by simp
next
  case (Cons x xs)
  let ?x' = "refreshed cfg today x"
  let ?coll' = "map (\<lambda>i. if i = x then ?x' else i) coll"
  have xin: "x \<in> set coll" using Cons.prems by simp
  have notin: "\<forall>y \<in> set xs. i_id y \<noteq> i_id x" using Cons.prems(2) by (auto simp: image_iff)
  have step: "recalc_loop cfg today (x # xs) n coll =
      recalc_loop cfg today xs (n + (if computeLateFee cfg today x \<noteq> lateFee x then 1 else 0)) ?coll'"
  proof (cases "computeLateFee cfg today x \<noteq> lateFee x")
    case True
    then have "invoice_save ?x' coll = ?coll'"
      using invoice_save_eq [OF Cons.prems(1) xin, of ?x'] by simp
    with True show ?thesis by (simp add: Let_def refreshed_def)
  next
    case False
    then have "?x' = x" by (simp add: refreshed_def)
    then have "?coll' = coll" by (simp add: map_idI)
    with False show ?thesis by (simp add: Let_def)
  qed
  have ids: "map i_id ?coll' = map i_id coll" by (induction coll) auto
  have d': "distinct (map i_id ?coll')" unfolding ids by (rule Cons.prems(1))
  have sub': "set xs \<subseteq> set ?coll'"
  proof
    fix y assume y: "y \<in> set xs"
    then have "y \<in> set coll" "y \<noteq> x" using Cons.prems(3) notin by auto
    then show "y \<in> set ?coll'" by (auto simp: image_iff)
  qed
  have dx: "distinct (map i_id xs)" using Cons.prems(2) by simp
  have x'notin: "?x' \<notin> set xs" using notin by (metis refreshed_id)
  have maps: "map (\<lambda>i. if i \<in> set xs then refreshed cfg today i else i) ?coll' =
              map (\<lambda>i. if i \<in> set (x # xs) then refreshed cfg today i else i) coll"
    using x'notin by (auto simp: comp_def)
  show ?case
    unfolding step using Cons.IH [OF d' dx sub'] maps by (simp)
qed



lemma refreshed_always_id [simp]: "i_id (refreshed_always cfg today i) = i_id i"
  by (simp add: refreshed_always_def rederive_def)

lemma recalc_loop_always_eq:
  assumes "distinct (map i_id coll)" "distinct (map i_id xs)" "set xs \<subseteq> set coll"
  shows "recalc_loop_always cfg today xs n coll =
           (n + length xs, map (\<lambda>i. if i \<in> set xs then refreshed_always cfg today i else i) coll)"
  using assms
proof (induction xs arbitrary: n coll)
  case Nil
  then show ?case by simp
next
  case (Cons x xs)
  let ?x' = "refreshed_always cfg today x"
  let ?coll' = "map (\<lambda>i. if i = x then ?x' else i) coll"
  have xin: "x \<in> set coll" using Cons.prems by simp
  have notin: "\<forall>y \<in> set xs. i_id y \<noteq> i_id x" using Cons.prems(2) by (auto simp: image_iff)
  have "invoice_save ?x' coll = ?coll'"
    using invoice_save_eq [OF Cons.prems(1) xin, of ?x'] by simp
  then have step: "recalc_loop_always cfg today (x # xs) n coll =
      recalc_loop_always cfg today xs (Suc n) ?coll'"
    by (simp add: Let_def refreshed_always_def)
  have ids: "map i_id ?coll' = map i_id coll" by (induction coll) auto
  have d': "distinct (map i_id ?coll')" unfolding ids by (rule Cons.prems(1))
  have sub': "set xs \<subseteq> set ?coll'"
  proof
    fix y assume y: "y \<in> set xs"
    then have "y \<in> set coll" "y \<noteq> x" using Cons.prems(3) notin by auto
    then show "y \<in> set ?coll'" by (auto simp: image_iff)
  qed
  have dx: "distinct (map i_id xs)" using Cons.prems(2) by simp
  have x'notin: "?x' \<notin> set xs" using notin by (metis refreshed_always_id)
  have maps: "map (\<lambda>i. if i \<in> set xs then refreshed_always cfg today i else i) ?coll' =
              map (\<lambda>i. if i \<in> set (x # xs) then refreshed_always cfg today i else i) coll"
    using x'notin by (auto simp: comp_def)
  show ?case
    unfolding step using Cons.IH [OF d' dx sub'] maps by simp
qed

lemma fetched_ok:
  "distinct (map i_id coll) \<Longrightarrow> distinct (map i_id (filter P coll)) \<and> set (filter P coll) \<subseteq> set coll"
  by (simp add: distinct_map_filter)

lemma recalculateLateFees_invoices:
  assumes "distinct (map i_id (invoices d))" "settings d = Some s"
  shows "recalculateLateFees today d =
     (Inr (length (filter (\<lambda>i. computeLateFee (lateFeeConfig s) today i \<noteq> lateFee i)
             (filter (\<lambda>i. status i = Unpaid \<or> status i = Partially_paid) (invoices d)))),
      d \<lparr> invoices := map (\<lambda>i. if status i = Unpaid \<or> status i = Partially_paid
                                then refreshed (lateFeeConfig s) today i else i) (invoices d) \<rparr>)"
proof -
  let ?P = "\<lambda>i. status i = Unpaid \<or> status i = Partially_paid"
  have f: "distinct (map i_id (filter ?P (invoices d)))" "set (filter ?P (invoices d)) \<subseteq> set (invoices d)"
    using fetched_ok [OF assms(1)] by auto
  have m: "map (\<lambda>i. if i \<in> set (filter ?P (invoices d)) then refreshed (lateFeeConfig s) today i else i) (invoices d)
         = map (\<lambda>i. if ?P i then refreshed (lateFeeConfig s) today i else i) (invoices d)"
    by (rule map_cong) auto
  show ?thesis
    unfolding recalculateLateFees_def
    using recalc_loop_eq [OF assms(1) f, of "lateFeeConfig s" today 0] m assms(2)
    by (simp add: Let_def)
qed

lemma recalculateLateFees_always_invoices:
  assumes "distinct (map i_id (invoices d))" "settings d = Some s"
  shows "recalculateLateFees_always today d =
     (Inr (length (filter (\<lambda>i. status i = Unpaid \<or> status i = Partially_paid) (invoices d))),
      d \<lparr> invoices := map (\<lambda>i. if status i = Unpaid \<or> status i = Partially_paid
                                then refreshed_always (lateFeeConfig s) today i else i) (invoices d) \<rparr>)"
proof -
  let ?P = "\<lambda>i. status i = Unpaid \<or> status i = Partially_paid"
  have f: "distinct (map i_id (filter ?P (invoices d)))" "set (filter ?P (invoices d)) \<subseteq> set (invoices d)"
    using fetched_ok [OF assms(1)] by auto
  have m: "map (\<lambda>i. if i \<in> set (filter ?P (invoices d)) then refreshed_always (lateFeeConfig s) today i else i) (invoices d)
         = map (\<lambda>i. if ?P i then refreshed_always (lateFeeConfig s) today i else i) (invoices d)"
    by (rule map_cong) auto
  show ?thesis
    unfolding recalculateLateFees_always_def
    using recalc_loop_always_eq [OF assms(1) f, of "lateFeeConfig s" today 0] m assms(2)
    by (simp add: Let_def)
qed

lemma recalculateLateFees_none:
  "settings d = None \<Longrightarrow> recalculateLateFees today d = (Inl FailedPrecondition, d)"
  "settings d = None \<Longrightarrow> recalculateLateFees_always today d = (Inl FailedPrecondition, d)"
  by (simp_all add: recalculateLateFees_def recalculateLateFees_always_def)

lemma computeLateFee_cong:
  "dueDate a = dueDate b \<Longrightarrow> baseAmount a = baseAmount b \<Longrightarrow>
   computeLateFee cfg today a = computeLateFee cfg today b"
  by (simp add: computeLateFee_def Let_def split: fee_type.splits)

lemma refreshed_fields [simp]:
  "lateFee (refreshed cfg today i) = computeLateFee cfg today i"
  "status (refreshed cfg today i) = status i"
  "dueDate (refreshed cfg today i) = dueDate i"
  "baseAmount (refreshed cfg today i) = baseAmount i"
  "paidAmount (refreshed cfg today i) = paidAmount i"
  by (simp_all add: refreshed_def)

lemma refreshed_fee_stable [simp]:
  "computeLateFee cfg today (refreshed cfg today i) = computeLateFee cfg today i"
  by (rule computeLateFee_cong) simp_all

lemma refreshed_idem [simp]:
  "refreshed cfg today (refreshed cfg today i) = refreshed cfg today i"
proof -
  have "computeLateFee cfg today (refreshed cfg today i) = lateFee (refreshed cfg today i)"
    by simp
  then show ?thesis by (subst refreshed_def) (simp only: if_False simp_thms)
qed

lemma invoice_byId_map:
  assumes "distinct (map i_id xs)" "x \<in> set xs" "\<And>i. i_id (g i) = i_id i"
  shows "invoice_byId (i_id x) (map g xs) = Some (g x)"
  using assms(1,2)
proof (induction xs)
  case Nil
  then show ?case by simp
next
  case (Cons y ys)
  show ?case
  proof (cases "y = x")
    case True
    then show ?thesis by (simp add: invoice_byId_def assms(3))
  next
    case False
    then have "x \<in> set ys" "i_id y \<noteq> i_id x" using Cons.prems by (auto simp: image_iff)
    then show ?thesis using Cons by (simp add: invoice_byId_def assms(3))
  qed
qed

section \<open>Invariants of the reachable states\<close>

lemma invoices_wf_mono: "invoices_wf n xs \<Longrightarrow> n \<le> m \<Longrightarrow> invoices_wf m xs"
  by (auto simp: invoices_wf_def)

text \<open>Replacing documents by documents with the same identifier, period and an exact total.\<close>

lemma invoices_wf_map:
  assumes "invoices_wf n xs"
    and "\<And>i. i \<in> set xs \<Longrightarrow> i_id (f i) = i_id i \<and> period_key (f i) = period_key i \<and>
           totalAmount (f i) = baseAmount (f i) + lateFee (f i)"
  shows "invoices_wf n (map f xs)"
proof -
  have "map i_id (map f xs) = map i_id xs" "map period_key (map f xs) = map period_key xs"
    using assms(2) by (simp_all)
  then show ?thesis
    using assms unfolding invoices_wf_def by (metis (no_types, lifting) imageE list.set_map)
qed

lemma generate_loop_frame:
  "leases (snd (generate_loop today pf pt y m ls created d)) = leases d \<and>
   lightBills (snd (generate_loop today pf pt y m ls created d)) = lightBills d \<and>
   tenants (snd (generate_loop today pf pt y m ls created d)) = tenants d \<and>
   rooms (snd (generate_loop today pf pt y m ls created d)) = rooms d \<and>
   payments (snd (generate_loop today pf pt y m ls created d)) = payments d \<and>
   settings (snd (generate_loop today pf pt y m ls created d)) = settings d"
  by (induction ls arbitrary: created d) (auto simp: Let_def split: option.splits)

lemma generate_loop_wf:
  assumes "invoices_wf (nextId d) (invoices d)"
  shows "invoices_wf (nextId (snd (generate_loop today pf pt y m ls created d)))
           (invoices (snd (generate_loop today pf pt y m ls created d)))"
  using assms
proof (induction ls arbitrary: created d)
  case Nil
  then show ?case by simp
next
  case (Cons l ls)
  show ?case
  proof (cases "find (\<lambda>i. i_lease i = l_id l \<and> periodFrom i = pf \<and> periodTo i = pt) (invoices d)")
    case (Some a)
    then show ?thesis using Cons by simp
  next
    case None
    let ?inv = "newInvoice (nextId d) l pf pt today (mkDate y m (if billingDay l = 0 then 1 else billingDay l))"
    let ?d' = "d \<lparr> invoices := invoices d @ [?inv], nextId := Suc (nextId d) \<rparr>"
    from None have fresh: "\<forall>i \<in> set (invoices d). period_key i \<noteq> (l_id l, pf, pt)"
      by (auto simp: find_None_iff period_key_def)
    have "invoices_wf (nextId ?d') (invoices ?d')"
      using Cons.prems fresh
      by (auto simp: invoices_wf_def newInvoice_def period_key_def less_Suc_eq)
    from Cons.IH [OF this] None show ?thesis by (simp add: Let_def)
  qed
qed



lemma db_wf_recalculate:
  assumes "db_wf d"
  shows "db_wf (snd (recalculateLateFees today d))"
proof (cases "settings d")
  case None
  then show ?thesis using assms by (simp add: recalculateLateFees_none)
next
  case (Some s)
  have dist: "distinct (map i_id (invoices d))" using assms by (simp add: db_wf_def invoices_wf_def)
  have "invoices_wf (nextId d) (map (\<lambda>i. if status i = Unpaid \<or> status i = Partially_paid
                                then refreshed (lateFeeConfig s) today i else i) (invoices d))"
    using assms
    by (intro invoices_wf_map) (auto simp: db_wf_def invoices_wf_def refreshed_def period_key_def)
  then show ?thesis
    using assms by (simp add: recalculateLateFees_invoices [OF dist Some] db_wf_def)
qed

lemma db_wf_recalculate_always:
  assumes "db_wf d"
  shows "db_wf (snd (recalculateLateFees_always today d))"
proof (cases "settings d")
  case None
  then show ?thesis using assms by (simp add: recalculateLateFees_none)
next
  case (Some s)
  have dist: "distinct (map i_id (invoices d))" using assms by (simp add: db_wf_def invoices_wf_def)
  have "invoices_wf (nextId d) (map (\<lambda>i. if status i = Unpaid \<or> status i = Partially_paid
                                then refreshed_always (lateFeeConfig s) today i else i) (invoices d))"
    using assms
    by (intro invoices_wf_map)
       (auto simp: db_wf_def invoices_wf_def refreshed_always_def rederive_def period_key_def)
  then show ?thesis
    using assms by (simp add: recalculateLateFees_always_invoices [OF dist Some] db_wf_def)
qed



lemma invoice_byId_Some:
  "invoice_byId k xs = Some x \<Longrightarrow> x \<in> set xs \<and> i_id x = k"
  by (auto simp: invoice_byId_def find_Some_iff)

lemma db_wf_payInvoice:
  assumes "db_wf d"
  shows "db_wf (snd (payInvoice k amt dt md nt now d))"
proof (cases "\<exists>a invoice. amt = Some a \<and> 0 < a \<and> invoice_byId k (invoices d) = Some invoice \<and>
                 \<not> paidAmount invoice + a > totalAmount invoice")
  case False
  then have "snd (payInvoice k amt dt md nt now d) = d"
    by (auto simp: payInvoice_def Let_def split: option.splits)
  then show ?thesis using assms by simp
next
  case True
  then obtain a invoice where h: "amt = Some a" "0 < a" "invoice_byId k (invoices d) = Some invoice"
      "\<not> paidAmount invoice + a > totalAmount invoice" by blast
  let ?inv1 = "invoice \<lparr> paidAmount := paidAmount invoice + a \<rparr>"
  let ?inv2 = "(if paidAmount ?inv1 \<ge> totalAmount ?inv1 then ?inv1 \<lparr> status := Paid \<rparr>
               else if paidAmount ?inv1 > 0 then ?inv1 \<lparr> status := Partially_paid \<rparr> else ?inv1)"
  have mem: "invoice \<in> set (invoices d)" using invoice_byId_Some [OF h(3)] by simp
  have dist: "distinct (map i_id (invoices d))" using assms by (simp add: db_wf_def invoices_wf_def)
  have same: "i_id ?inv2 = i_id invoice" by simp
  have sv: "invoice_save ?inv2 (invoices d) = map (\<lambda>i. if i = invoice then ?inv2 else i) (invoices d)"
    by (rule invoice_save_eq [OF dist mem same])
  have "invoices_wf (nextId d) (map (\<lambda>i. if i = invoice then ?inv2 else i) (invoices d))"
    using assms
    by (intro invoices_wf_map) (auto simp: db_wf_def invoices_wf_def period_key_def)
  then have wf': "invoices_wf (Suc (nextId d)) (invoice_save ?inv2 (invoices d))"
    unfolding sv by (rule invoices_wf_mono) simp
  have "invoices (snd (payInvoice k amt dt md nt now d)) = invoice_save ?inv2 (invoices d) \<and>
        nextId (snd (payInvoice k amt dt md nt now d)) = Suc (nextId d) \<and>
        lightBills (snd (payInvoice k amt dt md nt now d)) = lightBills d \<and>
        leases (snd (payInvoice k amt dt md nt now d)) = leases d"
    using h by (simp add: payInvoice_def Let_def)
  then show ?thesis using assms wf' by (simp add: db_wf_def)
qed

lemma db_wf_generate_loop:
  assumes "db_wf d"
  shows "db_wf (snd (generate_loop today pf pt y m ls created d))"
  using assms generate_loop_wf [of d today pf pt y m ls created]
    generate_loop_frame [of today pf pt y m ls created d]
  by (simp add: db_wf_def)

lemma db_wf_createLease:
  assumes "db_wf d"
  shows "db_wf (snd (createLease t r sd ed rent dep bd d))"
  using assms
  by (auto simp: createLease_def db_wf_def leases_wf_def Let_def
      intro: invoices_wf_mono split: option.splits)

lemma db_wf_endLease:
  assumes "db_wf d"
  shows "db_wf (snd (endLease k ed notes now d))"
  using assms
  by (auto simp: endLease_def db_wf_def leases_wf_def Let_def find_Some_iff split: option.splits)

lemma validateBody_Inr:
  "validateBody q d = Inr bill \<Longrightarrow>
     b_status bill = Unpaid \<and> b_paidAmount bill = 0 \<and> b_id bill = nextId d \<and>
     b_totalAmount bill = unitsConsumed bill * ratePerUnit bill + fixedCharge bill + tax bill \<and>
     0 < unitsConsumed bill \<and> 0 < ratePerUnit bill \<and>
     fixedCharge bill = get_or (q_fixedCharge q) 0 \<and> tax bill = get_or (q_tax q) 0"
  unfolding validateBody_def Let_def get_or_def
  by (simp split: option.splits if_splits) auto

lemma db_wf_createLightBill:
  assumes "db_wf d"
  shows "db_wf (snd (createLightBill q d))"
proof (cases "validateBody (resolveBody q d) d")
  case (Inl e)
  then show ?thesis using assms by (simp add: createLightBill_def)
next
  case (Inr bill)
  then show ?thesis
    using assms validateBody_Inr [OF Inr]
    by (auto simp: createLightBill_def db_wf_def bills_wf_def intro: invoices_wf_mono)
qed

lemma db_wf_payLightBill:
  assumes "db_wf d"
  shows "db_wf (snd (payLightBill k amt dt md nt d))"
  using assms
  by (auto simp: payLightBill_def db_wf_def bills_wf_def bill_save_def Let_def find_Some_iff
      split: option.splits if_splits)

lemma applyPatch_keeps [simp]:
  "b_status (applyPatch u b) = b_status b" "b_paidAmount (applyPatch u b) = b_paidAmount b"
  "b_id (applyPatch u b) = b_id b"
  by (simp_all add: applyPatch_def Let_def)

lemma db_wf_updateLightBill:
  assumes "db_wf d"
  shows "db_wf (snd (updateLightBill k u d))"
  using assms
  by (auto simp: updateLightBill_def db_wf_def bills_wf_def bill_save_def Let_def find_Some_iff
      split: option.splits if_splits)

lemma db_wf_deleteLightBill:
  assumes "db_wf d"
  shows "db_wf (snd (deleteLightBill k d))"
  using assms
  by (auto simp: deleteLightBill_def db_wf_def bills_wf_def split: option.splits)

lemma reachable_wf: "reachable d \<Longrightarrow> db_wf d"
proof (induction rule: reachable.induct)
  case r_init
  show ?case by (simp add: init_db_def db_wf_def invoices_wf_def bills_wf_def leases_wf_def)
next
  case (r_directory d ts rs)
  then show ?case by (simp add: db_wf_def)
next
  case (r_settings d s)
  then show ?case by (simp add: db_wf_def)
next
  case (r_generateMonthly d today)
  then show ?case by (simp add: generateMonthly_def Let_def db_wf_generate_loop)
next
  case (r_schedule d today)
  then show ?case by (simp add: scheduleMonthlyInvoiceGeneration_def Let_def db_wf_generate_loop)
next
  case (r_generate_manual d today)
  then show ?case by (simp add: generateMonthly_manual_def Let_def db_wf_generate_loop)
qed (simp_all add: db_wf_createLease db_wf_endLease db_wf_payInvoice db_wf_recalculate
    db_wf_recalculate_always db_wf_createLightBill db_wf_payLightBill db_wf_updateLightBill
    db_wf_deleteLightBill)



lemma invoice_save_all:
  "P x \<Longrightarrow> \<forall>i \<in> set xs. P i \<Longrightarrow> \<forall>i \<in> set (invoice_save x xs). P i"
  by (auto simp: invoice_save_def)

lemma bill_save_all:
  "P x \<Longrightarrow> \<forall>b \<in> set xs. P b \<Longrightarrow> \<forall>b \<in> set (bill_save x xs). P b"
  by (auto simp: bill_save_def)

lemma payInvoice_cases:
  "snd (payInvoice k amt dt md nt now d) = d \<or>
   (\<exists>a invoice. amt = Some a \<and> 0 < a \<and> invoice_byId k (invoices d) = Some invoice \<and>
      paidAmount invoice + a \<le> totalAmount invoice \<and>
      snd (payInvoice k amt dt md nt now d) =
        d \<lparr> payments := payments d @
               [\<lparr> p_id = nextId d, p_invoice = i_id invoice, p_lease = i_lease invoice,
                  p_tenant = i_tenant invoice, amount = a,
                  p_date = (case dt of None \<Rightarrow> now | Some t \<Rightarrow> t),
                  p_mode = (case md of None \<Rightarrow> Cash | Some m \<Rightarrow> m), p_note = nt \<rparr>],
             invoices := invoice_save
               (invoice \<lparr> paidAmount := paidAmount invoice + a,
                           status := (if paidAmount invoice + a \<ge> totalAmount invoice then Paid
                                      else if paidAmount invoice + a > 0 then Partially_paid
                                      else status invoice) \<rparr>) (invoices d),
             nextId := Suc (nextId d) \<rparr>)"
proof (cases amt)
  case None
  then show ?thesis by (simp add: payInvoice_def)
next
  case (Some a)
  note amt = Some
  show ?thesis
  proof (cases "invoice_byId k (invoices d)")
    case None
    then show ?thesis using amt by (simp add: payInvoice_def)
  next
    case (Some invoice)
    show ?thesis
    proof (cases "0 < a \<and> paidAmount invoice + a \<le> totalAmount invoice")
      case False
      then have "snd (payInvoice k amt dt md nt now d) = d"
        using amt Some by (auto simp: payInvoice_def Let_def)
      then show ?thesis by simp
    next
      case True
      then show ?thesis
        using amt Some by (simp add: payInvoice_def Let_def)
    qed
  qed
qed

text \<open>The paid amount of an invoice is never negative.\<close>

lemma refreshed_always_paid [simp]:
  "paidAmount (refreshed_always cfg today i) = paidAmount i"
  by (simp add: refreshed_always_def rederive_def)







section \<open>The concrete states are reachable\<close>

lemma march1_civil: "getFullYear march1 = 2024" "getMonth march1 = 2"
  by (code_simp+)

lemma march10_civil: "getFullYear march10 = 2024" "getMonth march10 = 2"
  by (code_simp+)

lemma march_dates:
  "mkDate 2024 2 1 = 1709251200000" "mkDate 2024 3 0 = 1711843200000"
  "mkDate 2024 2 5 = 1709596800000" "mkDate 2024 3 5 = 1712275200000"
  by (code_simp+)

lemma due_civil:
  "getMonth 1709596800000 = 2" "getDate 1709596800000 = 5"
  "getMonth 1712275200000 = 3" "getDate 1712275200000 = 5"
  by (code_simp+)

lemma days_since_due:
  "(march15 - 1709596800000) div msPerDay = 10" "(march7 - 1709596800000) div msPerDay = 2"
  by (code_simp+)

lemma room_db_reachable: "reachable room_db"
proof -
  have "room_db = init_db \<lparr> tenants := [1],
      rooms := [\<lparr> r_id = 1, r_status = Vacant, currentLease = None \<rparr>] \<rparr>
      \<lparr> settings := Some default_settings \<rparr>"
    by (simp add: room_db_def init_db_def)
  then show ?thesis
    by (metis r_settings r_directory r_init)
qed

lemma leased_db_step:
  "createLease (Some 1) (Some 1) (Some 0) None (Some 5000) (Some 10000) (Some 5) room_db
     = (Inr rent5000_lease, leased_db)"
  by (simp add: createLease_def room_db_def leased_db_def rent5000_lease_def leaseQuery_def
      room_update_def Let_def)

lemma leased_db_reachable: "reachable leased_db"
  using r_createLease [OF room_db_reachable, of "Some 1" "Some 1" "Some 0" None "Some 5000" "Some 10000" "Some 5"]
  by (simp only: leased_db_step snd_conv)

lemma billed_db_step:
  "scheduleMonthlyInvoiceGeneration march1 leased_db = ([march_invoice], billed_db)"
  by (simp add: scheduleMonthlyInvoiceGeneration_def march1_civil march_dates leased_db_def
      billed_db_def rent5000_lease_def march_invoice_def newInvoice_def Let_def)

lemma billed_db_reachable: "reachable billed_db"
  using r_schedule [OF leased_db_reachable, of march1] by (simp only: billed_db_step snd_conv)

lemma march_fee:
  "computeLateFee (lateFeeConfig default_settings) march15 march_invoice = 35"
  "computeLateFee (lateFeeConfig lenient_settings) march15 march_invoice = 0"
  "computeLateFee (lateFeeConfig default_settings) march7 march_invoice = 0"
  by (simp_all add: computeLateFee_def march_invoice_def days_since_due default_settings_def
      lenient_settings_def Let_def)

lemma billed_db_recalculate:
  "recalculateLateFees march15 billed_db =
     (Inr 1, billed_db \<lparr> invoices := [march_invoice \<lparr> lateFee := 35, totalAmount := 5035 \<rparr>] \<rparr>)"
  using march_fee
  by (simp add: recalculateLateFees_def billed_db_def leased_db_def invoice_save_def Let_def
      march_invoice_def)


lemma charged_db_steps:
  "payInvoice 1 (Some 5020) None None None march15
     (billed_db \<lparr> invoices := [march_invoice \<lparr> lateFee := 35, totalAmount := 5035 \<rparr>] \<rparr>)
   = (Inr (march_payment, march_invoice \<lparr> lateFee := 35, totalAmount := 5035,
                             paidAmount := 5020, status := Partially_paid \<rparr>),
      charged_db \<lparr> settings := Some default_settings \<rparr>)"
  by (simp add: payInvoice_def invoice_byId_def invoice_save_def billed_db_def leased_db_def
      charged_db_def march_invoice_def march_payment_def Let_def)

lemma charged_db_reachable: "reachable charged_db"
proof -
  have "reachable (snd (recalculateLateFees march15 billed_db))"
    by (rule r_recalculate [OF billed_db_reachable])
  then have "reachable (billed_db \<lparr> invoices := [march_invoice \<lparr> lateFee := 35, totalAmount := 5035 \<rparr>] \<rparr>)"
    by (simp only: billed_db_recalculate snd_conv)
  then have "reachable (snd (payInvoice 1 (Some 5020) None None None march15
     (billed_db \<lparr> invoices := [march_invoice \<lparr> lateFee := 35, totalAmount := 5035 \<rparr>] \<rparr>)))"
    by (rule r_payInvoice)
  then have "reachable (charged_db \<lparr> settings := Some default_settings \<rparr>)"
    by (simp only: charged_db_steps snd_conv)
  then have "reachable (charged_db \<lparr> settings := Some default_settings \<rparr> \<lparr> settings := Some lenient_settings \<rparr>)"
    by (rule r_settings)
  then show ?thesis by (simp add: charged_db_def billed_db_def leased_db_def)
qed

lemma charged_fee:
  "computeLateFee (lateFeeConfig lenient_settings) march15
     (march_invoice \<lparr> lateFee := 35, totalAmount := 5035, paidAmount := 5020,
                      status := Partially_paid \<rparr>) = 0"
proof -
  have "computeLateFee (lateFeeConfig lenient_settings) march15
     (march_invoice \<lparr> lateFee := 35, totalAmount := 5035, paidAmount := 5020,
                      status := Partially_paid \<rparr>)
     = computeLateFee (lateFeeConfig lenient_settings) march15 march_invoice"
    by (rule computeLateFee_cong) simp_all
  then show ?thesis by (simp only: march_fee(2))
qed

lemma charged_db_recalculate:
  "recalculateLateFees march15 charged_db = (Inr 1, overpaid_db)"
  using charged_fee
  by (simp add: recalculateLateFees_def overpaid_db_def overpaid_invoice_def charged_db_def
      billed_db_def leased_db_def invoice_save_def Let_def march_invoice_def)

lemma overpaid_db_reachable: "reachable overpaid_db"
  using r_recalculate [OF charged_db_reachable, of march15]
  by (simp only: charged_db_recalculate snd_conv)

lemma bill_db_step: "createLightBill room_bill_body billed_db = (Inr room_bill, bill_db)"
  by (simp add: createLightBill_def resolveBody_def validateBody_def room_bill_body_def
      billed_db_def leased_db_def rent5000_lease_def march_invoice_def room_bill_def bill_db_def
      or_else_def samePeriod_def Let_def)

lemma bill_db_reachable: "reachable bill_db"
  using r_createLightBill [OF billed_db_reachable, of room_bill_body]
  by (simp only: bill_db_step snd_conv)

lemma half_paid_db_step:
  "payLightBill 2 (Some 500) (Some march10) None None bill_db =
     (Inr (room_bill \<lparr> b_paidAmount := 500, b_status := Partially_paid \<rparr>), half_paid_db)"
  by (simp add: payLightBill_def bill_db_def half_paid_db_def room_bill_def bill_save_def Let_def)

lemma half_paid_db_reachable: "reachable half_paid_db"
  using r_payLightBill [OF bill_db_reachable, of 2 "Some 500" "Some march10" None None]
  by (simp only: half_paid_db_step snd_conv)

section \<open>Over-payment is rejected\<close>

text \<open>On an invoice whose paid amount does not exceed its total, every amount that would
  exceed the total is positive, and the payment fails with \<open>Conflict\<close>.\<close>

lemma payInvoice_within_total:
  assumes "invoice_byId k (invoices d) = Some invoice"
    and "paidAmount invoice \<le> totalAmount invoice"
    and "paidAmount invoice + a > totalAmount invoice"
  shows "payInvoice k (Some a) dt md nt now d = (Inl Conflict, d)"
  using assms by (simp add: payInvoice_def Let_def)

text \<open>
  C1: for every invoice and every payment amount, which is a positive number (the route
  rejects any other amount as invalid before it reads the invoice), such that
  \<open>paidAmount + amount > totalAmount\<close>, \<open>payInvoice\<close> fails with \<open>Conflict\<close> and the
  database is unchanged: the invoice keeps its paid amount and status and no payment record
  is created.
\<close>

theorem payInvoice_exceeds_total:
  assumes "invoice_byId k (invoices d) = Some invoice" and "0 < a"
    and "paidAmount invoice + a > totalAmount invoice"
  shows "payInvoice k (Some a) dt md nt now d = (Inl Conflict, d)"
  using assms by (simp add: payInvoice_def Let_def)

text \<open>C1, at a concrete input: 6000 against the unpaid invoice of 5000.\<close>

theorem payInvoice_exceeds_total_witness:
  "invoice_byId 1 (invoices billed_db) = Some march_invoice \<and> (0 :: num) < 6000 \<and>
   paidAmount march_invoice + 6000 > totalAmount march_invoice \<and>
   payInvoice 1 (Some 6000) None None None march10 billed_db = (Inl Conflict, billed_db)"
proof -
  have h1: "invoice_byId 1 (invoices billed_db) = Some march_invoice"
    by (simp add: invoice_byId_def billed_db_def march_invoice_def)
  have h2: "(0 :: num) < 6000" by simp
  have h3: "paidAmount march_invoice + 6000 > totalAmount march_invoice"
    by (simp add: march_invoice_def)
  show ?thesis
    using h1 h3 payInvoice_exceeds_total [OF h1 h2 h3, of None None None march10] by simp
qed

section \<open>One invoice per lease and period\<close>

lemma generate_loop_grows:
  "set (invoices d) \<subseteq> set (invoices (snd (generate_loop today pf pt y m ls created d)))"
proof (induction ls arbitrary: created d)
  case Nil
  then show ?case by simp
next
  case (Cons l ls)
  show ?case
  proof (cases "find (\<lambda>i. i_lease i = l_id l \<and> periodFrom i = pf \<and> periodTo i = pt) (invoices d)")
    case (Some a)
    then show ?thesis using Cons.IH [of d created] by simp
  next
    case None
    let ?d' = "d \<lparr> invoices := invoices d @ [newInvoice (nextId d) l pf pt today
                  (mkDate y m (if billingDay l = 0 then 1 else billingDay l))],
                nextId := Suc (nextId d) \<rparr>"
    have "set (invoices d) \<subseteq> set (invoices ?d')" by auto
    also have "\<dots> \<subseteq> set (invoices (snd (generate_loop today pf pt y m ls
        (created @ [newInvoice (nextId d) l pf pt today
                  (mkDate y m (if billingDay l = 0 then 1 else billingDay l))]) ?d')))"
      by (rule Cons.IH)
    finally show ?thesis using None by (simp add: Let_def)
  qed
qed

lemma generate_loop_covers:
  "\<forall>l \<in> set ls. \<exists>i \<in> set (invoices (snd (generate_loop today pf pt y m ls created d))).
      i_lease i = l_id l \<and> periodFrom i = pf \<and> periodTo i = pt"
proof (induction ls arbitrary: created d)
  case Nil
  then show ?case by simp
next
  case (Cons l ls)
  show ?case
  proof (cases "find (\<lambda>i. i_lease i = l_id l \<and> periodFrom i = pf \<and> periodTo i = pt) (invoices d)")
    case (Some a)
    then have "a \<in> set (invoices d)" "i_lease a = l_id l \<and> periodFrom a = pf \<and> periodTo a = pt"
      by (auto simp: find_Some_iff)
    then have "\<exists>i \<in> set (invoices (snd (generate_loop today pf pt y m ls created d))).
      i_lease i = l_id l \<and> periodFrom i = pf \<and> periodTo i = pt"
      using generate_loop_grows [of d today pf pt y m ls created] by blast
    then show ?thesis using Some Cons.IH [of created d] by simp
  next
    case None
    let ?n = "newInvoice (nextId d) l pf pt today
                  (mkDate y m (if billingDay l = 0 then 1 else billingDay l))"
    let ?d' = "d \<lparr> invoices := invoices d @ [?n], nextId := Suc (nextId d) \<rparr>"
    have "?n \<in> set (invoices ?d')" by simp
    then have "?n \<in> set (invoices (snd (generate_loop today pf pt y m ls (created @ [?n]) ?d')))"
      using generate_loop_grows [of ?d' today pf pt y m ls "created @ [?n]"] by blast
    moreover have "i_lease ?n = l_id l \<and> periodFrom ?n = pf \<and> periodTo ?n = pt"
      by (simp add: newInvoice_def)
    ultimately have "\<exists>i \<in> set (invoices (snd (generate_loop today pf pt y m ls (created @ [?n]) ?d'))).
      i_lease i = l_id l \<and> periodFrom i = pf \<and> periodTo i = pt" by blast
    then show ?thesis using None Cons.IH [of "created @ [?n]" ?d'] by (simp add: Let_def)
  qed
qed

lemma generate_loop_skips:
  assumes "\<forall>l \<in> set ls. \<exists>i \<in> set (invoices d).
      i_lease i = l_id l \<and> periodFrom i = pf \<and> periodTo i = pt"
  shows "generate_loop today pf pt y m ls created d = (created, d)"
  using assms
proof (induction ls)
  case Nil
  then show ?case by simp
next
  case (Cons l ls)
  then have "find (\<lambda>i. i_lease i = l_id l \<and> periodFrom i = pf \<and> periodTo i = pt) (invoices d) \<noteq> None"
    by (auto simp: find_None_iff)
  then show ?case using Cons by auto
qed

lemma one_per_key:
  "distinct (map f xs) \<Longrightarrow> length (filter (\<lambda>x. f x = k) xs) \<le> 1"
proof (induction xs)
  case Nil
  then show ?case by simp
next
  case (Cons x xs)
  show ?case
  proof (cases "f x = k")
    case True
    then have "filter (\<lambda>x. f x = k) xs = []" using Cons.prems by (auto simp: filter_empty_conv image_iff)
    then show ?thesis using True by simp
  next
    case False
    then show ?thesis using Cons by simp
  qed
qed

text \<open>
  C2: in every reachable state, after the manual trigger has run at \<open>t1\<close> there is at most
  one invoice for each lease and period, and a second run at any time \<open>t2\<close> of the same
  month and year creates no invoice and leaves the database as it is: every active lease is
  skipped because its invoice for the period exists.
\<close>

theorem generateMonthly_twice:
  assumes "reachable d" and "getFullYear t2 = getFullYear t1" and "getMonth t2 = getMonth t1"
  shows "length (filter (\<lambda>i. i_lease i = L \<and> periodFrom i = pf \<and> periodTo i = pt)
                   (invoices (snd (generateMonthly t1 d)))) \<le> 1 \<and>
         generateMonthly t2 (snd (generateMonthly t1 d)) = ([], snd (generateMonthly t1 d))"
proof -
  let ?d1 = "snd (generateMonthly t1 d)"
  let ?ls = "filter (\<lambda>l. l_status l = Active) (leases d)"
  let ?pf = "mkDate (getFullYear t1) (getMonth t1) 1"
  let ?pt = "mkDate (getFullYear t1) (getMonth t1 + 1) 0"
  have d1: "?d1 = snd (generate_loop t1 ?pf ?pt (getFullYear t1) (getMonth t1 + 1) ?ls [] d)"
    by (simp add: generateMonthly_def Let_def)
  have "reachable ?d1" by (rule r_generateMonthly [OF assms(1)])
  then have "distinct (map period_key (invoices ?d1))"
    using reachable_wf by (auto simp: db_wf_def invoices_wf_def)
  then have "length (filter (\<lambda>i. period_key i = (L, pf, pt)) (invoices ?d1)) \<le> 1"
    by (rule one_per_key)
  then have uniq: "length (filter (\<lambda>i. i_lease i = L \<and> periodFrom i = pf \<and> periodTo i = pt)
                   (invoices ?d1)) \<le> 1"
    by (simp add: period_key_def)
  have ls: "leases ?d1 = leases d" unfolding d1 using generate_loop_frame by blast
  have cov: "\<forall>l \<in> set ?ls. \<exists>i \<in> set (invoices ?d1).
      i_lease i = l_id l \<and> periodFrom i = ?pf \<and> periodTo i = ?pt"
    unfolding d1 by (rule generate_loop_covers)
  have "generateMonthly t2 ?d1 =
      generate_loop t2 ?pf ?pt (getFullYear t1) (getMonth t1 + 1) ?ls [] ?d1"
    using assms(2,3) ls by (simp add: generateMonthly_def Let_def)
  also have "\<dots> = ([], ?d1)" by (rule generate_loop_skips [OF cov])
  finally show ?thesis using uniq by simp
qed

text \<open>C2, at a concrete input: the lease of \<open>leased_db\<close> is billed on 1 March and the trigger
  is run again on 10 March.\<close>

theorem generateMonthly_twice_witness:
  "reachable leased_db \<and> getFullYear march10 = getFullYear march1 \<and>
   getMonth march10 = getMonth march1 \<and>
   length (fst (generateMonthly march1 leased_db)) = 1 \<and>
   length (filter (\<lambda>i. i_lease i = 0 \<and> periodFrom i = 1709251200000 \<and> periodTo i = 1711843200000)
             (invoices (snd (generateMonthly march1 leased_db)))) = 1 \<and>
   generateMonthly march10 (snd (generateMonthly march1 leased_db)) =
     ([], snd (generateMonthly march1 leased_db))"
proof -
  have h: "getFullYear march10 = getFullYear march1" "getMonth march10 = getMonth march1"
    by (simp_all add: march1_civil march10_civil)
  have g: "length (fst (generateMonthly march1 leased_db)) = 1"
    "length (filter (\<lambda>i. i_lease i = 0 \<and> periodFrom i = 1709251200000 \<and> periodTo i = 1711843200000)
             (invoices (snd (generateMonthly march1 leased_db)))) = 1"
    by (simp_all add: generateMonthly_def march1_civil march_dates leased_db_def
        rent5000_lease_def newInvoice_def Let_def)
  show ?thesis
    using generateMonthly_twice [OF leased_db_reachable h, of 0 1709251200000 1711843200000]
      leased_db_reachable h g
    by simp
qed

section \<open>Due date of a generated invoice\<close>

lemma april5_civil:
  "getMonth (mkDate 2024 3 5) = 3" "getDate (mkDate 2024 3 5) = 5"
  "getMonth (mkDate 2024 2 5) = 2" "getDate (mkDate 2024 2 5) = 5"
  by (code_simp+)

text \<open>
  C3 (the code deviates): on 10 March 2024 the manual trigger of routes/invoiceRoutes.js
  bills the lease with rent 5000 and billing day 5 for March with the right amounts, but the
  due date is 5 April (month index 3), because \<open>month\<close> is \<open>getMonth() + 1\<close> there; the
  scheduled task, run at the same moment, sets 5 March.
\<close>

theorem generateMonthly_due_next_month:
  "getFullYear march10 = 2024 \<and> getMonth march10 = 2 \<and>
   map dueDate (fst (generateMonthly march10 leased_db)) = [mkDate 2024 3 5] \<and>
   getMonth (mkDate 2024 3 5) = 3 \<and> getDate (mkDate 2024 3 5) = 5 \<and>
   map baseAmount (fst (generateMonthly march10 leased_db)) = [5000] \<and>
   map totalAmount (fst (generateMonthly march10 leased_db)) = [5000] \<and>
   map lateFee (fst (generateMonthly march10 leased_db)) = [0] \<and>
   map dueDate (fst (scheduleMonthlyInvoiceGeneration march10 leased_db)) = [mkDate 2024 2 5] \<and>
   getMonth (mkDate 2024 2 5) = 2 \<and> getDate (mkDate 2024 2 5) = 5"
  by (simp add: march10_civil april5_civil generateMonthly_def
      scheduleMonthlyInvoiceGeneration_def leased_db_def rent5000_lease_def newInvoice_def Let_def)

section \<open>The late fee\<close>

text \<open>
  C4: in every reachable state with settings, every invoice that is unpaid or partially paid
  has, after the recalculation at time \<open>today\<close>, the late fee
  \<open>(diffDays - graceDays) * perDayAmount\<close> (per day) or \<open>baseAmount * percentage / 100\<close>
  (percentage) if \<open>diffDays = floor ((today - dueDate) / 1 day)\<close> exceeds the grace days, and
  0 otherwise; and its total is its base amount plus that fee.
\<close>

theorem recalculateLateFees_late_fee:
  assumes "reachable d" and "settings d = Some s" and "invoice \<in> set (invoices d)"
    and "status invoice = Unpaid \<or> status invoice = Partially_paid"
  shows "\<exists>invoice'.
           invoice_byId (i_id invoice) (invoices (snd (recalculateLateFees today d))) = Some invoice' \<and>
           lateFee invoice' =
             (if of_int ((today - dueDate invoice) div msPerDay) > graceDays (lateFeeConfig s)
              then (case fee_type (lateFeeConfig s) of
                      Per_day \<Rightarrow> (of_int ((today - dueDate invoice) div msPerDay)
                                    - graceDays (lateFeeConfig s)) * perDayAmount (lateFeeConfig s)
                    | Percentage \<Rightarrow> baseAmount invoice * percentage (lateFeeConfig s) / 100)
              else 0) \<and>
           totalAmount invoice' = baseAmount invoice' + lateFee invoice' \<and>
           baseAmount invoice' = baseAmount invoice \<and> dueDate invoice' = dueDate invoice \<and>
           paidAmount invoice' = paidAmount invoice"
proof -
  let ?P = "\<lambda>i. status i = Unpaid \<or> status i = Partially_paid"
  let ?g = "\<lambda>i. if ?P i then refreshed (lateFeeConfig s) today i else i"
  have wf: "invoices_wf (nextId d) (invoices d)" using reachable_wf [OF assms(1)] by (simp add: db_wf_def)
  then have dist: "distinct (map i_id (invoices d))" by (simp add: invoices_wf_def)
  have tot: "totalAmount invoice = baseAmount invoice + lateFee invoice"
    using wf assms(3) by (simp add: invoices_wf_def)
  have "invoice_byId (i_id invoice) (map ?g (invoices d)) = Some (?g invoice)"
    by (rule invoice_byId_map [OF dist assms(3)]) simp
  then have look: "invoice_byId (i_id invoice) (invoices (snd (recalculateLateFees today d)))
                   = Some (refreshed (lateFeeConfig s) today invoice)"
    using assms(4) by (simp add: recalculateLateFees_invoices [OF dist assms(2)])
  have total: "totalAmount (refreshed (lateFeeConfig s) today invoice) =
               baseAmount invoice + computeLateFee (lateFeeConfig s) today invoice"
    using tot by (simp add: refreshed_def)
  show ?thesis
    unfolding look using total
    by (simp add: computeLateFee_def Let_def split: fee_type.splits)
qed

text \<open>C4, at the scenario of the specification: ten days overdue, three grace days, 5 per day,
  base amount 5000 give a late fee of 35 and a total of 5035.\<close>

theorem recalculateLateFees_late_fee_witness:
  "reachable billed_db \<and> settings billed_db = Some default_settings \<and>
   march_invoice \<in> set (invoices billed_db) \<and> status march_invoice = Unpaid \<and>
   (march15 - dueDate march_invoice) div msPerDay = 10 \<and> baseAmount march_invoice = 5000 \<and>
   (\<exists>invoice'.
      invoice_byId 1 (invoices (snd (recalculateLateFees march15 billed_db))) = Some invoice' \<and>
      lateFee invoice' = 35 \<and> totalAmount invoice' = 5035)"
proof -
  have h: "settings billed_db = Some default_settings" "march_invoice \<in> set (invoices billed_db)"
    "status march_invoice = Unpaid \<or> status march_invoice = Partially_paid"
    by (simp_all add: billed_db_def leased_db_def march_invoice_def)
  have v: "i_id march_invoice = 1" "dueDate march_invoice = 1709596800000"
    "baseAmount march_invoice = 5000" "status march_invoice = Unpaid"
    by (simp_all add: march_invoice_def)
  show ?thesis
    using recalculateLateFees_late_fee [OF billed_db_reachable h, of march15] h(1,2)
      billed_db_reachable
    by (auto simp: v days_since_due default_settings_def)
qed

section \<open>Status after the late-fee recalculation\<close>

text \<open>
  C5 (the code deviates): the invoice of \<open>billed_db\<close> is unpaid, ten days past its due date
  on 15 March, and nothing is paid. The recalculation of routes/invoiceRoutes.js writes the
  fee and the total and leaves the status \<open>unpaid\<close>; the other copy of the route sets it to
  \<open>overdue\<close>.
\<close>

theorem recalculateLateFees_keeps_unpaid:
  "map status (invoices billed_db) = [Unpaid] \<and>
   map dueDate (invoices billed_db) = [1709596800000] \<and> 1709596800000 < march15 \<and>
   fst (recalculateLateFees march15 billed_db) = Inr 1 \<and>
   map lateFee (invoices (snd (recalculateLateFees march15 billed_db))) = [35] \<and>
   map totalAmount (invoices (snd (recalculateLateFees march15 billed_db))) = [5035] \<and>
   map paidAmount (invoices (snd (recalculateLateFees march15 billed_db))) = [0] \<and>
   map status (invoices (snd (recalculateLateFees march15 billed_db))) = [Unpaid] \<and>
   map status (invoices (snd (recalculateLateFees_always march15 billed_db))) = [Overdue]"
proof -
  have a: "status march_invoice = Unpaid" "paidAmount march_invoice = 0"
    "baseAmount march_invoice = 5000" "dueDate march_invoice = 1709596800000"
    "1709596800000 < march15"
    by (simp_all add: march_invoice_def march15_def)
  have b: "recalculateLateFees_always march15 billed_db =
      (Inr 1, billed_db \<lparr> invoices := [march_invoice \<lparr> lateFee := 35, totalAmount := 5035,
                                           status := Overdue \<rparr>] \<rparr>)"
    using a march_fee
    by (simp add: recalculateLateFees_always_def billed_db_def leased_db_def invoice_save_def
        rederive_def Let_def)
  show ?thesis
    using a by (simp add: billed_db_recalculate b) (simp add: billed_db_def)
qed

section \<open>Status and payment history\<close>













section \<open>Recalculating twice\<close>

text \<open>
  C7: with the settings present and the clock fixed, a second recalculation right after a
  first one changes no invoice and reports zero updated invoices.
\<close>

theorem recalculateLateFees_twice:
  assumes "distinct (map i_id (invoices d))" and "settings d = Some s"
  shows "recalculateLateFees today (snd (recalculateLateFees today d)) =
           (Inr 0, snd (recalculateLateFees today d))"
proof -
  let ?P = "\<lambda>i. status i = Unpaid \<or> status i = Partially_paid"
  let ?g = "\<lambda>i. if ?P i then refreshed (lateFeeConfig s) today i else i"
  let ?d1 = "d \<lparr> invoices := map ?g (invoices d) \<rparr>"
  have first: "snd (recalculateLateFees today d) = ?d1"
    by (simp add: recalculateLateFees_invoices [OF assms])
  have ids: "map i_id (map ?g (invoices d)) = map i_id (invoices d)" by simp
  have d1: "distinct (map i_id (invoices ?d1))" "settings ?d1 = Some s"
    using assms ids by (simp_all del: map_map)
  have none: "filter (\<lambda>i. computeLateFee (lateFeeConfig s) today i \<noteq> lateFee i)
                (filter ?P (map ?g (invoices d))) = []"
    by (auto simp: filter_empty_conv)
  have same: "map ?g (map ?g (invoices d)) = map ?g (invoices d)"
    by simp
  show ?thesis
    unfolding first recalculateLateFees_invoices [OF d1]
    using none same by simp
qed

text \<open>C7, at a concrete input: the first run on 15 March updates one invoice, the second
  none.\<close>

theorem recalculateLateFees_twice_witness:
  "distinct (map i_id (invoices billed_db)) \<and> settings billed_db = Some default_settings \<and>
   fst (recalculateLateFees march15 billed_db) = Inr 1 \<and>
   recalculateLateFees march15 (snd (recalculateLateFees march15 billed_db)) =
     (Inr 0, snd (recalculateLateFees march15 billed_db))"
proof -
  have h: "distinct (map i_id (invoices billed_db))" "settings billed_db = Some default_settings"
    by (simp_all add: billed_db_def leased_db_def)
  show ?thesis
    using recalculateLateFees_twice [OF h, of march15] h by (simp add: billed_db_recalculate)
qed

section \<open>Overlapping leases\<close>

lemma lease_trace_eq:
  "lease_trace =
     \<lparr> tenants = [1], rooms = [\<lparr> r_id = 1, r_status = Vacant, currentLease = None \<rparr>],
       leases = [\<lparr> l_id = 0, l_tenant = 1, l_room = 1, startDate = 0, endDate = Some 60,
                   rentPerMonth = 5000, depositAgreed = 10000, depositPaid = 0,
                   depositRefunded = 0, billingDay = 1, l_status = Ended, l_notes = None \<rparr>,
                 \<lparr> l_id = 1, l_tenant = 1, l_room = 1, startDate = 100, endDate = None,
                   rentPerMonth = 5000, depositAgreed = 10000, depositPaid = 0,
                   depositRefunded = 0, billingDay = 1, l_status = Active, l_notes = None \<rparr>],
       invoices = [], payments = [], lightBills = [], settings = Some default_settings,
       nextId = 2 \<rparr>"
  by (simp add: lease_trace_def room_db_def createLease_def endLease_def
      leaseQuery_def room_update_def Let_def)

lemma lease_trace_reachable: "reachable lease_trace"
  unfolding lease_trace_def
  by (intro r_endLease r_createLease room_db_reachable)

text \<open>
  C8 (the code deviates): in the reachable state \<open>lease_trace\<close> room 1 has an active lease
  from 100 without end and is marked vacant. A request for the room from 50 without end
  overlaps it and is accepted, because the query for a request without end only looks for
  leases that start at or before the requested start; a request for 150 to 200 overlaps it
  and is accepted, because a lease without \<open>endDate\<close> matches none of the three date
  conditions.
\<close>

theorem createLease_misses_overlap:
  "reachable lease_trace \<and>
   map lease_summary (leases lease_trace) = [(1, Ended, 0, Some 60), (1, Active, 100, None)] \<and>
   overlaps 50 None 100 None \<and>
   map lease_summary
     (leases (snd (createLease (Some 1) (Some 1) (Some 50) None (Some 5000) (Some 10000) None
        lease_trace)))
     = [(1, Ended, 0, Some 60), (1, Active, 100, None), (1, Active, 50, None)] \<and>
   overlaps 150 (Some 200) 100 None \<and>
   map lease_summary
     (leases (snd (createLease (Some 1) (Some 1) (Some 150) (Some 200) (Some 5000) (Some 10000) None
        lease_trace)))
     = [(1, Ended, 0, Some 60), (1, Active, 100, None), (1, Active, 150, Some 200)]"
  using lease_trace_reachable
  by (simp add: lease_trace_eq createLease_def leaseQuery_def room_update_def lease_summary_def
      overlaps_def le_end_def field_gte_def field_lte_def Let_def)

section \<open>The amount invariant\<close>

lemma amounts_ok_payInvoice:
  assumes "amounts_ok d"
  shows "amounts_ok (snd (payInvoice k amt dt md nt now d))"
  using payInvoice_cases [of k amt dt md nt now d]
proof
  assume "snd (payInvoice k amt dt md nt now d) = d"
  then show ?thesis using assms by simp
next
  assume "\<exists>a invoice. amt = Some a \<and> 0 < a \<and> invoice_byId k (invoices d) = Some invoice \<and>
      paidAmount invoice + a \<le> totalAmount invoice \<and>
      snd (payInvoice k amt dt md nt now d) =
        d \<lparr> payments := payments d @
               [\<lparr> p_id = nextId d, p_invoice = i_id invoice, p_lease = i_lease invoice,
                  p_tenant = i_tenant invoice, amount = a,
                  p_date = (case dt of None \<Rightarrow> now | Some t \<Rightarrow> t),
                  p_mode = (case md of None \<Rightarrow> Cash | Some m \<Rightarrow> m), p_note = nt \<rparr>],
             invoices := invoice_save
               (invoice \<lparr> paidAmount := paidAmount invoice + a,
                           status := (if paidAmount invoice + a \<ge> totalAmount invoice then Paid
                                      else if paidAmount invoice + a > 0 then Partially_paid
                                      else status invoice) \<rparr>) (invoices d),
             nextId := Suc (nextId d) \<rparr>"
  then obtain a invoice where h: "0 < a" "invoice_byId k (invoices d) = Some invoice"
      "paidAmount invoice + a \<le> totalAmount invoice"
      "invoices (snd (payInvoice k amt dt md nt now d)) = invoice_save
               (invoice \<lparr> paidAmount := paidAmount invoice + a,
                           status := (if paidAmount invoice + a \<ge> totalAmount invoice then Paid
                                      else if paidAmount invoice + a > 0 then Partially_paid
                                      else status invoice) \<rparr>) (invoices d)"
      "lightBills (snd (payInvoice k amt dt md nt now d)) = lightBills d"
    by auto
  have "invoice \<in> set (invoices d)" using invoice_byId_Some [OF h(2)] by simp
  then have "0 \<le> paidAmount invoice" using assms by (simp add: amounts_ok_def)
  then have "\<forall>i \<in> set (invoices (snd (payInvoice k amt dt md nt now d))).
      0 \<le> paidAmount i \<and> paidAmount i \<le> totalAmount i"
    unfolding h(4) using assms h(1,3)
    by (intro invoice_save_all) (simp_all add: amounts_ok_def)
  then show ?thesis
    using assms unfolding amounts_ok_def h(5) by simp
qed

lemma payLightBill_Inr:
  assumes "fst (payLightBill k amt dt md nt d) = Inr bill"
  shows "\<exists>a b. amt = Some a \<and> 0 < a \<and> find (\<lambda>b. b_id b = k) (lightBills d) = Some b \<and>
           b_paidAmount b + a \<le> b_totalAmount b \<and>
           bill = b \<lparr> b_paidAmount := b_paidAmount b + a,
                      b_status := (if b_paidAmount b + a \<ge> b_totalAmount b then Paid
                                   else if b_paidAmount b + a > 0 then Partially_paid
                                   else b_status b) \<rparr>"
proof (cases amt)
  case None
  then show ?thesis using assms by (simp add: payLightBill_def)
next
  case (Some a)
  show ?thesis
  proof (cases "find (\<lambda>b. b_id b = k) (lightBills d)")
    case None
    then show ?thesis using assms Some by (simp add: payLightBill_def split: if_splits)
  next
    case (Some b)
    then show ?thesis
      using assms \<open>amt = Some a\<close>
      by (simp add: payLightBill_def Let_def split: if_splits)
  qed
qed

lemma updateLightBill_Inr:
  assumes "fst (updateLightBill k u d) = Inr bill"
  shows "\<exists>b. find (\<lambda>b. b_id b = k) (lightBills d) = Some b \<and> bill = applyPatch u b"
proof (cases "find (\<lambda>b. b_id b = k) (lightBills d)")
  case None
  then show ?thesis using assms by (simp add: updateLightBill_def)
next
  case (Some b)
  then show ?thesis
    using assms by (simp add: updateLightBill_def Let_def split: if_splits)
qed

lemma amounts_ok_payLightBill:
  assumes "amounts_ok d"
  shows "amounts_ok (snd (payLightBill k amt dt md nt d))"
proof (cases "fst (payLightBill k amt dt md nt d)")
  case (Inl e)
  then have "snd (payLightBill k amt dt md nt d) = d"
    by (auto simp: payLightBill_def Let_def split: option.splits if_splits)
  then show ?thesis using assms by simp
next
  case (Inr bill)
  from payLightBill_Inr [OF Inr] obtain a b where
    h: "0 < a" "find (\<lambda>b. b_id b = k) (lightBills d) = Some b"
       "b_paidAmount b + a \<le> b_totalAmount b"
       "bill = b \<lparr> b_paidAmount := b_paidAmount b + a,
                      b_status := (if b_paidAmount b + a \<ge> b_totalAmount b then Paid
                                   else if b_paidAmount b + a > 0 then Partially_paid
                                   else b_status b) \<rparr>" by blast
  have s: "snd (payLightBill k amt dt md nt d) = d \<lparr> lightBills := bill_save bill (lightBills d) \<rparr>"
    using Inr by (auto simp: payLightBill_def Let_def split: option.splits if_splits)
  have "b \<in> set (lightBills d)" using h(2) by (auto simp: find_Some_iff)
  then have "0 \<le> b_paidAmount b" using assms by (simp add: amounts_ok_def)
  then have "0 \<le> b_paidAmount bill \<and> b_paidAmount bill \<le> b_totalAmount bill"
    using h(1,3) unfolding h(4) by simp
  then have "\<forall>b \<in> set (bill_save bill (lightBills d)).
      0 \<le> b_paidAmount b \<and> b_paidAmount b \<le> b_totalAmount b"
    using assms by (intro bill_save_all) (simp_all add: amounts_ok_def)
  then show ?thesis
    using assms unfolding amounts_ok_def s by simp
qed

lemma amounts_ok_generate_loop:
  assumes "amounts_ok d" "\<forall>l \<in> set ls. 0 \<le> rentPerMonth l"
  shows "amounts_ok (snd (generate_loop today pf pt y m ls created d))"
  using assms
proof (induction ls arbitrary: created d)
  case Nil
  then show ?case by simp
next
  case (Cons l ls)
  show ?case
  proof (cases "find (\<lambda>i. i_lease i = l_id l \<and> periodFrom i = pf \<and> periodTo i = pt) (invoices d)")
    case (Some a)
    then show ?thesis using Cons by simp
  next
    case None
    let ?n = "newInvoice (nextId d) l pf pt today
                  (mkDate y m (if billingDay l = 0 then 1 else billingDay l))"
    let ?d' = "d \<lparr> invoices := invoices d @ [?n], nextId := Suc (nextId d) \<rparr>"
    have "amounts_ok ?d'"
      using Cons.prems by (auto simp: amounts_ok_def newInvoice_def)
    then have "amounts_ok (snd (generate_loop today pf pt y m ls (created @ [?n]) ?d'))"
      using Cons.IH Cons.prems(2) by simp
    then show ?thesis using None by (simp add: Let_def)
  qed
qed

lemma amounts_ok_createLightBill:
  assumes "amounts_ok d" "0 \<le> get_or (q_fixedCharge q) 0" "0 \<le> get_or (q_tax q) 0"
  shows "amounts_ok (snd (createLightBill q d))"
proof (cases "validateBody (resolveBody q d) d")
  case (Inl e)
  then show ?thesis using assms by (simp add: createLightBill_def)
next
  case (Inr bill)
  have rq: "q_fixedCharge (resolveBody q d) = q_fixedCharge q" "q_tax (resolveBody q d) = q_tax q"
    by (simp_all add: resolveBody_def Let_def split: option.splits)
  from validateBody_Inr [OF Inr] rq assms(2,3)
  have "b_paidAmount bill = 0" "0 \<le> b_totalAmount bill"
    by simp_all
  then show ?thesis
    using assms(1) Inr by (simp add: createLightBill_def amounts_ok_def)
qed

lemma paid_nonneg_recalculate:
  assumes "distinct (map i_id (invoices d))" "paid_nonneg d"
  shows "paid_nonneg (snd (recalculateLateFees today d))"
proof (cases "settings d")
  case None
  then show ?thesis using assms by (simp add: recalculateLateFees_none)
next
  case (Some s)
  show ?thesis
    using assms(2)
    by (auto simp: recalculateLateFees_invoices [OF assms(1) Some] paid_nonneg_def)
qed

lemma paid_nonneg_updateLightBill:
  assumes "paid_nonneg d"
  shows "paid_nonneg (snd (updateLightBill k u d))"
proof (cases "fst (updateLightBill k u d)")
  case (Inl e)
  then have "snd (updateLightBill k u d) = d"
    by (auto simp: updateLightBill_def Let_def split: option.splits if_splits)
  then show ?thesis using assms by simp
next
  case (Inr bill)
  from updateLightBill_Inr [OF Inr] obtain b where
    h: "find (\<lambda>b. b_id b = k) (lightBills d) = Some b" "bill = applyPatch u b" by blast
  have s: "snd (updateLightBill k u d) = d \<lparr> lightBills := bill_save bill (lightBills d) \<rparr>"
    using Inr by (auto simp: updateLightBill_def Let_def split: option.splits if_splits)
  have "b \<in> set (lightBills d)" using h(1) by (auto simp: find_Some_iff)
  then have "0 \<le> b_paidAmount bill" using assms h(2) by (simp add: paid_nonneg_def)
  then have "\<forall>b \<in> set (bill_save bill (lightBills d)). 0 \<le> b_paidAmount b"
    using assms by (intro bill_save_all) (simp_all add: paid_nonneg_def)
  then show ?thesis using assms unfolding paid_nonneg_def s by simp
qed

text \<open>
  C9 (as stated, refuted): both states are reachable and satisfy
  \<open>0 \<le> paidAmount \<le> totalAmount\<close>. Updating the units of the half-paid light bill to 4
  leaves 500 paid of a total of 102; recalculating the late fees after the grace period was
  raised leaves 5020 paid of a total of 5000.
\<close>

theorem amounts_invariant_counterexample:
  "reachable half_paid_db \<and> amounts_ok half_paid_db \<and>
   map b_paidAmount (lightBills (snd (updateLightBill 2 fewer_units half_paid_db))) = [500] \<and>
   map b_totalAmount (lightBills (snd (updateLightBill 2 fewer_units half_paid_db))) = [102] \<and>
   \<not> amounts_ok (snd (updateLightBill 2 fewer_units half_paid_db)) \<and>
   reachable charged_db \<and> amounts_ok charged_db \<and>
   map paidAmount (invoices (snd (recalculateLateFees march15 charged_db))) = [5020] \<and>
   map totalAmount (invoices (snd (recalculateLateFees march15 charged_db))) = [5000] \<and>
   \<not> amounts_ok (snd (recalculateLateFees march15 charged_db))"
proof -
  have u: "snd (updateLightBill 2 fewer_units half_paid_db) =
      half_paid_db \<lparr> lightBills := [room_bill \<lparr> b_paidAmount := 500, b_status := Partially_paid,
                                                unitsConsumed := 4, b_totalAmount := 102 \<rparr>] \<rparr>"
    by (simp add: updateLightBill_def half_paid_db_def bill_db_def room_bill_def patchInvalid_def
        fewer_units_def applyPatch_def get_or_def or_else_def bill_save_def Let_def)
  have a: "amounts_ok half_paid_db" "amounts_ok charged_db"
    by (simp_all add: amounts_ok_def half_paid_db_def bill_db_def billed_db_def leased_db_def
        charged_db_def room_bill_def march_invoice_def)
  show ?thesis
    using half_paid_db_reachable charged_db_reachable a
    by (simp add: u charged_db_recalculate)
       (simp add: amounts_ok_def overpaid_db_def overpaid_invoice_def march_invoice_def
         half_paid_db_def bill_db_def room_bill_def)
qed

text \<open>
  C9 (amended): from a reachable state in which every invoice and light bill has
  \<open>0 \<le> paidAmount \<le> totalAmount\<close>, paying an invoice, paying a light bill and generating
  the monthly invoices (manually or scheduled) lead to such a state again, and so does
  creating a light bill whose fixed charge and tax are not negative; recalculating the late
  fees and updating a light bill keep \<open>0 \<le> paidAmount\<close>.
\<close>

theorem amounts_preserved:
  assumes "reachable d" and "amounts_ok d"
  shows "amounts_ok (snd (payInvoice k amt dt md nt now d)) \<and>
         amounts_ok (snd (payLightBill k' amt' dt' md' nt' d)) \<and>
         amounts_ok (snd (generateMonthly today d)) \<and>
         amounts_ok (snd (scheduleMonthlyInvoiceGeneration today d)) \<and>
         (0 \<le> get_or (q_fixedCharge q) 0 \<and> 0 \<le> get_or (q_tax q) 0 \<longrightarrow>
            amounts_ok (snd (createLightBill q d))) \<and>
         paid_nonneg (snd (recalculateLateFees today d)) \<and>
         paid_nonneg (snd (updateLightBill k' u d))"
proof -
  have wf: "db_wf d" by (rule reachable_wf [OF assms(1)])
  then have dist: "distinct (map i_id (invoices d))" by (simp add: db_wf_def invoices_wf_def)
  have rents: "\<forall>l \<in> set (filter (\<lambda>l. l_status l = Active) (leases d)). 0 \<le> rentPerMonth l"
    using wf by (auto simp: db_wf_def leases_wf_def intro: less_imp_le)
  have nn: "paid_nonneg d" using assms(2) by (simp add: amounts_ok_def paid_nonneg_def)
  have g1: "amounts_ok (snd (generateMonthly today d))"
    unfolding generateMonthly_def Let_def by (rule amounts_ok_generate_loop [OF assms(2) rents])
  have g2: "amounts_ok (snd (scheduleMonthlyInvoiceGeneration today d))"
    unfolding scheduleMonthlyInvoiceGeneration_def Let_def
    by (rule amounts_ok_generate_loop [OF assms(2) rents])
  have c: "0 \<le> get_or (q_fixedCharge q) 0 \<and> 0 \<le> get_or (q_tax q) 0 \<longrightarrow>
            amounts_ok (snd (createLightBill q d))"
    using amounts_ok_createLightBill [OF assms(2)] by blast
  show ?thesis
    by (intro conjI amounts_ok_payInvoice amounts_ok_payLightBill assms(2) g1 g2 c
        paid_nonneg_recalculate dist nn paid_nonneg_updateLightBill)
qed

text \<open>C9, at a concrete input: the state with the unpaid March invoice and light bill.\<close>

theorem amounts_preserved_witness:
  "reachable bill_db \<and> amounts_ok bill_db \<and>
   0 \<le> get_or (q_fixedCharge april_bill_body) 0 \<and> 0 \<le> get_or (q_tax april_bill_body) 0 \<and>
   map paidAmount (invoices (snd (payInvoice 1 (Some 2000) None None None march10 bill_db))) = [2000] \<and>
   amounts_ok (snd (payInvoice 1 (Some 2000) None None None march10 bill_db)) \<and>
   map b_paidAmount (lightBills (snd (payLightBill 2 (Some 500) (Some march10) None None bill_db))) = [500] \<and>
   amounts_ok (snd (payLightBill 2 (Some 500) (Some march10) None None bill_db)) \<and>
   amounts_ok (snd (generateMonthly march10 bill_db)) \<and>
   length (lightBills (snd (createLightBill april_bill_body bill_db))) = 2 \<and>
   amounts_ok (snd (createLightBill april_bill_body bill_db))"
proof -
  have a: "amounts_ok bill_db"
    by (simp add: amounts_ok_def bill_db_def billed_db_def leased_db_def room_bill_def
        march_invoice_def)
  have q: "0 \<le> get_or (q_fixedCharge april_bill_body) 0" "0 \<le> get_or (q_tax april_bill_body) 0"
    by (simp_all add: april_bill_body_def room_bill_body_def get_or_def)
  note t = amounts_preserved [OF bill_db_reachable a, of 1 "Some 2000" None None None march10
      2 "Some 500" "Some march10" None None march10 april_bill_body]
  have p: "map paidAmount (invoices (snd (payInvoice 1 (Some 2000) None None None march10 bill_db))) = [2000]"
    by (simp add: payInvoice_def invoice_byId_def invoice_save_def bill_db_def billed_db_def
        leased_db_def march_invoice_def Let_def)
  have b: "map b_paidAmount (lightBills (snd (payLightBill 2 (Some 500) (Some march10) None None bill_db))) = [500]"
    by (simp add: half_paid_db_step half_paid_db_def)
  have c: "length (lightBills (snd (createLightBill april_bill_body bill_db))) = 2"
    by (simp add: createLightBill_def resolveBody_def validateBody_def april_bill_body_def
        room_bill_body_def bill_db_def billed_db_def leased_db_def rent5000_lease_def
        march_invoice_def room_bill_def or_else_def samePeriod_def Let_def)
  show ?thesis
    using t q by (intro conjI bill_db_reachable a q p b c) blast+
qed

section \<open>Light bills are never overdue\<close>

lemma recalculate_keeps_bills:
  "lightBills (snd (recalculateLateFees today d)) = lightBills d"
  "lightBills (snd (recalculateLateFees_always today d)) = lightBills d"
  by (simp_all add: recalculateLateFees_def recalculateLateFees_always_def Let_def
      split: option.splits)

lemma generate_keeps_bills:
  "lightBills (snd (generateMonthly today d)) = lightBills d"
  "lightBills (snd (scheduleMonthlyInvoiceGeneration today d)) = lightBills d"
  "lightBills (snd (generateMonthly_manual today d)) = lightBills d"
  by (simp_all add: generateMonthly_def scheduleMonthlyInvoiceGeneration_def
      generateMonthly_manual_def Let_def generate_loop_frame)

text \<open>
  C10: in every reachable state each light bill is \<open>unpaid\<close>, \<open>partially_paid\<close> or
  \<open>paid\<close>; an accepted payment leaves the bill \<open>paid\<close> with the paid amount at or above
  the total, or \<open>partially_paid\<close> with a positive paid amount below it; an update keeps
  the status; the recalculation and the generation of invoices leave the light bills as they
  are.
\<close>

theorem lightBill_never_overdue:
  assumes "reachable d"
  shows "(\<forall>b \<in> set (lightBills d).
            b_status b = Unpaid \<or> b_status b = Partially_paid \<or> b_status b = Paid) \<and>
         (\<forall>bill. fst (payLightBill k amt dt md nt d) = Inr bill \<longrightarrow>
            (b_status bill = Paid \<and> b_paidAmount bill \<ge> b_totalAmount bill) \<or>
            (b_status bill = Partially_paid \<and> b_paidAmount bill > 0 \<and>
             b_paidAmount bill < b_totalAmount bill)) \<and>
         (\<forall>b bill. find (\<lambda>b. b_id b = k) (lightBills d) = Some b \<and>
            fst (updateLightBill k u d) = Inr bill \<longrightarrow> b_status bill = b_status b) \<and>
         lightBills (snd (recalculateLateFees today d)) = lightBills d \<and>
         lightBills (snd (generateMonthly today d)) = lightBills d \<and>
         lightBills (snd (scheduleMonthlyInvoiceGeneration today d)) = lightBills d"
proof -
  have wf: "bills_wf (lightBills d)" using reachable_wf [OF assms] by (simp add: db_wf_def)
  have a: "\<forall>b \<in> set (lightBills d).
            b_status b = Unpaid \<or> b_status b = Partially_paid \<or> b_status b = Paid"
  proof
    fix b assume "b \<in> set (lightBills d)"
    then have "b_status b \<noteq> Overdue" using wf by (simp add: bills_wf_def)
    then show "b_status b = Unpaid \<or> b_status b = Partially_paid \<or> b_status b = Paid"
      by (cases "b_status b") simp_all
  qed
  have b: "\<forall>bill. fst (payLightBill k amt dt md nt d) = Inr bill \<longrightarrow>
            (b_status bill = Paid \<and> b_paidAmount bill \<ge> b_totalAmount bill) \<or>
            (b_status bill = Partially_paid \<and> b_paidAmount bill > 0 \<and>
             b_paidAmount bill < b_totalAmount bill)"
  proof (intro allI impI)
    fix bill assume "fst (payLightBill k amt dt md nt d) = Inr bill"
    from payLightBill_Inr [OF this] obtain a b where
      h: "0 < a" "find (\<lambda>b. b_id b = k) (lightBills d) = Some b"
         "bill = b \<lparr> b_paidAmount := b_paidAmount b + a,
                      b_status := (if b_paidAmount b + a \<ge> b_totalAmount b then Paid
                                   else if b_paidAmount b + a > 0 then Partially_paid
                                   else b_status b) \<rparr>" by blast
    from h(2) have "b \<in> set (lightBills d)" by (auto simp: find_Some_iff)
    then have "0 \<le> b_paidAmount b" using wf by (simp add: bills_wf_def)
    then have "0 < b_paidAmount b + a" using h(1) by simp
    then show "(b_status bill = Paid \<and> b_paidAmount bill \<ge> b_totalAmount bill) \<or>
            (b_status bill = Partially_paid \<and> b_paidAmount bill > 0 \<and>
             b_paidAmount bill < b_totalAmount bill)"
      unfolding h(3) by simp
  qed
  have c: "\<forall>b bill. find (\<lambda>b. b_id b = k) (lightBills d) = Some b \<and>
            fst (updateLightBill k u d) = Inr bill \<longrightarrow> b_status bill = b_status b"
  proof (intro allI impI)
    fix b bill
    assume h: "find (\<lambda>b. b_id b = k) (lightBills d) = Some b \<and>
              fst (updateLightBill k u d) = Inr bill"
    from updateLightBill_Inr [of k u d bill] h have "bill = applyPatch u b" by auto
    then show "b_status bill = b_status b" by simp
  qed
  show ?thesis
    by (intro conjI a b c recalculate_keeps_bills generate_keeps_bills)
qed

text \<open>C10, at a concrete input: the unpaid light bill of \<open>bill_db\<close>.\<close>

theorem lightBill_never_overdue_witness:
  "reachable bill_db \<and> map b_status (lightBills bill_db) = [Unpaid] \<and>
   fst (payLightBill 2 (Some 500) (Some march10) None None bill_db) =
     Inr (room_bill \<lparr> b_paidAmount := 500, b_status := Partially_paid \<rparr>) \<and>
   find (\<lambda>b. b_id b = 2) (lightBills bill_db) = Some room_bill \<and>
   fst (updateLightBill 2 fewer_units bill_db) = Inr (applyPatch fewer_units room_bill) \<and>
   b_status (applyPatch fewer_units room_bill) = b_status room_bill \<and>
   lightBills (snd (recalculateLateFees march15 bill_db)) = lightBills bill_db"
proof -
  note t = lightBill_never_overdue [OF bill_db_reachable, of 2 "Some 500" "Some march10" None None
      fewer_units march15]
  have f: "find (\<lambda>b. b_id b = 2) (lightBills bill_db) = Some room_bill"
    by (simp add: bill_db_def room_bill_def)
  have u: "fst (updateLightBill 2 fewer_units bill_db) = Inr (applyPatch fewer_units room_bill)"
    by (simp add: updateLightBill_def f patchInvalid_def fewer_units_def Let_def)
  have s: "map b_status (lightBills bill_db) = [Unpaid]"
    by (simp add: bill_db_def room_bill_def)
  have p: "fst (payLightBill 2 (Some 500) (Some march10) None None bill_db) =
     Inr (room_bill \<lparr> b_paidAmount := 500, b_status := Partially_paid \<rparr>)"
    by (simp add: half_paid_db_step)
  have st: "b_status (applyPatch fewer_units room_bill) = b_status room_bill"
    using t f u by blast
  have r: "lightBills (snd (recalculateLateFees march15 bill_db)) = lightBills bill_db"
    using t by blast
  show ?thesis
    by (intro conjI bill_db_reachable s p f u st r)
qed


end
